theory Spec2Isabelle
  imports Complex_Main
begin

section \<open>Conventions of the embedding\<close>

text \<open>
  The three programs of the repository (\<^verbatim>\<open>openmp-examples/matmul.c\<close>,
  \<^verbatim>\<open>openmp-examples/vector_add.c\<close> and \<^verbatim>\<open>stream/stream.c\<close>) are embedded as
  HOL functions.

  \<^item> A C array of \<^verbatim>\<open>double\<close> (or of \<^verbatim>\<open>STREAM_TYPE\<close>) is a \<open>real list\<close>; a store
    \<^verbatim>\<open>C[i] = v\<close> is the list update \<open>C[i := v]\<close>. The arithmetic is that of the real
    numbers: IEEE rounding, infinities and NaN are outside the model. Where the code can
    divide by zero the outcome is written out in the definition. The one place where a
    double is converted to \<^verbatim>\<open>int\<close>, in \<^verbatim>\<open>checktick\<close>, keeps the rounding of the converted
    value and the range of \<^verbatim>\<open>int\<close> as parameters of a platform.
  \<^item> Loop counters and sizes are \<open>nat\<close>; all sizes are assumed to lie in the range of the
    C type that holds them (\<^verbatim>\<open>int\<close>, \<^verbatim>\<open>size_t\<close>, \<^verbatim>\<open>ssize_t\<close>).
  \<^item> A \<^verbatim>\<open>for\<close> loop over \<open>0 .. n-1\<close> is a \<open>fold\<close> over \<open>[0..<n]\<close>.
  \<^item> An OpenMP \<^verbatim>\<open>parallel for\<close> is a \<open>fold\<close> of the same loop body over a schedule: a
    list holding every iteration of the loop exactly once, in the order in which the
    iterations take effect. The loop variables and accumulators declared inside the
    loop are private to an iteration, as in the source.
  \<^item> The clock is a sequence of readings \<open>clk :: nat \<Rightarrow> real\<close>; the n-th call of the
    timestamp function returns \<open>clk n\<close>, and the number of calls made so far is threaded
    through the code as state.
  \<^item> What a program prints is a list of events, restricted to the lines the properties
    below talk about.
\<close>

section \<open>matmul.c\<close>

subsection \<open>The kernels\<close>

text \<open>The innermost loop: \<^verbatim>\<open>sum = 0.0; for k: sum += A[i*n+k] * B[k*n+j]\<close>.\<close>

definition cell_sum :: "real list \<Rightarrow> real list \<Rightarrow> nat \<Rightarrow> nat \<Rightarrow> nat \<Rightarrow> real" where
  "cell_sum A B n i j = fold (\<lambda>k sum. sum + A ! (i * n + k) * B ! (k * n + j)) [0..<n] 0"

text \<open>The body of the \<open>j\<close> loop for one pair \<open>(i, j)\<close>: \<^verbatim>\<open>C[i*n+j] = sum\<close>.\<close>

definition cell_body :: "real list \<Rightarrow> real list \<Rightarrow> nat \<Rightarrow> nat \<times> nat \<Rightarrow> real list \<Rightarrow> real list" where
  "cell_body A B n ij C = (case ij of (i, j) \<Rightarrow> C[i * n + j := cell_sum A B n i j])"

text \<open>The body of the \<open>i\<close> loop: the whole \<open>j\<close> loop of row \<open>i\<close>.\<close>

definition row_body :: "real list \<Rightarrow> real list \<Rightarrow> nat \<Rightarrow> nat \<Rightarrow> real list \<Rightarrow> real list" where
  "row_body A B n i C = fold (\<lambda>j. cell_body A B n (i, j)) [0..<n] C"

definition matmul_serial :: "real list \<Rightarrow> real list \<Rightarrow> real list \<Rightarrow> nat \<Rightarrow> real list" where
  "matmul_serial A B C n = fold (row_body A B n) [0..<n] C"

text \<open>
  \<^verbatim>\<open>#pragma omp parallel for\<close> on the \<open>i\<close> loop: the rows are processed in the order of a
  schedule \<open>rs\<close>.
\<close>

definition matmul_parallel ::
  "nat list \<Rightarrow> real list \<Rightarrow> real list \<Rightarrow> real list \<Rightarrow> nat \<Rightarrow> real list" where
  "matmul_parallel rs A B C n = fold (row_body A B n) rs C"

text \<open>
  \<^verbatim>\<open>#pragma omp parallel for collapse(2)\<close>: the iteration space is the set of pairs
  \<open>(i, j)\<close>, processed in the order of a schedule \<open>cs\<close>.
\<close>

definition matmul_parallel_collapse ::
  "(nat \<times> nat) list \<Rightarrow> real list \<Rightarrow> real list \<Rightarrow> real list \<Rightarrow> nat \<Rightarrow> real list" where
  "matmul_parallel_collapse cs A B C n = fold (cell_body A B n) cs C"

text \<open>A schedule runs every iteration of its loop exactly once.\<close>

definition row_schedule :: "nat \<Rightarrow> nat list \<Rightarrow> bool" where
  "row_schedule n rs = (distinct rs \<and> set rs = {0..<n})"

definition cell_schedule :: "nat \<Rightarrow> (nat \<times> nat) list \<Rightarrow> bool" where
  "cell_schedule n cs = (distinct cs \<and> set cs = {0..<n} \<times> {0..<n})"

text \<open>\<^verbatim>\<open>initialize_matrix\<close>: \<^verbatim>\<open>matrix[i*n+j] = (double)((i + j + seed) % 100) / 10.0\<close>.\<close>

definition initialize_matrix :: "real list \<Rightarrow> nat \<Rightarrow> nat \<Rightarrow> real list" where
  "initialize_matrix matrix n seed =
     fold (\<lambda>i m. fold (\<lambda>j m. m[i * n + j := real ((i + j + seed) mod 100) / 10]) [0..<n] m)
       [0..<n] matrix"

subsection \<open>Events of a run\<close>

datatype event =
    Tick \<comment> \<open>one call of the timestamp function\<close>
  | Ran string nat \<comment> \<open>a kernel was executed: its name and the iteration\<close>
  | Stdout string
  | Stderr string
  | Iteration nat real \<comment> \<open>\<^verbatim>\<open>Iteration %d: %.6f seconds\<close>\<close>
  | Mismatch nat real real real \<comment> \<open>\<^verbatim>\<open>Error at index %d: %.6f != %.6f (diff: %.6e)\<close>\<close>
  | Failed_at nat real real \<comment> \<open>\<^verbatim>\<open>Verification failed at index %zu: %f != %f\<close>\<close>
  | Best string real \<comment> \<open>a best execution time of the final report\<close>
  | Errors_found string nat \<comment> \<open>\<^verbatim>\<open>For array a[], %d errors were found.\<close>\<close>

subsection \<open>\<^verbatim>\<open>verify_results\<close> of matmul.c\<close>

text \<open>
  One iteration of the loop over \<open>i\<close>: the state is the counter \<^verbatim>\<open>errors\<close> and the lines
  printed so far.
\<close>

definition matmul_verify_step ::
  "real list \<Rightarrow> real list \<Rightarrow> real \<Rightarrow> nat \<Rightarrow> nat \<times> event list \<Rightarrow> nat \<times> event list" where
  "matmul_verify_step C1 C2 tolerance i st =
     (case st of (errors, out) \<Rightarrow>
        if \<bar>C1 ! i - C2 ! i\<bar> > tolerance
        then (errors + 1,
              if errors + 1 \<le> 5
              then out @ [Mismatch i (C1 ! i) (C2 ! i) \<bar>C1 ! i - C2 ! i\<bar>]
              else out)
        else (errors, out))"

definition matmul_verify_results ::
  "real list \<Rightarrow> real list \<Rightarrow> nat \<Rightarrow> real \<Rightarrow> nat \<times> event list" where
  "matmul_verify_results C1 C2 n tolerance =
     fold (matmul_verify_step C1 C2 tolerance) [0..<n * n] (0, [])"

subsection \<open>The timed loops of matmul.c and vector_add.c\<close>

text \<open>
  Both programs time each kernel with the same loop, written out once per kernel in the
  source: \<^verbatim>\<open>start_time = get_time(); kernel(...); end_time = get_time();\<close> then the elapsed
  time replaces the minimum when it is smaller. The minimum starts at \<^verbatim>\<open>1e9\<close>.
\<close>

record timing =
  buf :: "real list" \<comment> \<open>the result buffer of the kernel\<close>
  calls :: nat \<comment> \<open>the number of calls of \<^verbatim>\<open>get_time\<close> so far\<close>
  min_time :: real
  out :: "event list"

definition timed_iteration ::
  "(nat \<Rightarrow> real) \<Rightarrow> string \<Rightarrow> (nat \<Rightarrow> real list \<Rightarrow> real list) \<Rightarrow> nat \<Rightarrow> timing \<Rightarrow> timing" where
  "timed_iteration clk name kern iter s =
     (let start_time = clk (calls s);
          C = kern iter (buf s);
          end_time = clk (calls s + 1);
          elapsed = end_time - start_time
      in \<lparr>buf = C, calls = calls s + 2,
          min_time = (if elapsed < min_time s then elapsed else min_time s),
          out = out s @ [Tick, Ran name iter, Tick, Iteration (iter + 1) elapsed]\<rparr>)"

definition timed_loop ::
  "nat \<Rightarrow> (nat \<Rightarrow> real) \<Rightarrow> string \<Rightarrow> (nat \<Rightarrow> real list \<Rightarrow> real list) \<Rightarrow> real list \<Rightarrow> nat \<Rightarrow> timing" where
  "timed_loop iterations clk name kern C p =
     fold (timed_iteration clk name kern) [0..<iterations]
       \<lparr>buf = C, calls = p, min_time = 10 ^ 9, out = []\<rparr>"

subsection \<open>\<^verbatim>\<open>main\<close> of matmul.c\<close>

text \<open>
  What a run of the program depends on: whether the k-th call of \<^verbatim>\<open>malloc\<close> succeeds,
  what the buffer it returns holds, the clock, and the schedules of the parallel loops
  (the k-th call of \<^verbatim>\<open>matmul_parallel\<close>, the k-th call of \<^verbatim>\<open>matmul_parallel_collapse\<close>).
\<close>

record matmul_env =
  malloc_ok :: "nat \<Rightarrow> bool"
  garbage :: "nat \<Rightarrow> nat \<Rightarrow> real"
  get_time :: "nat \<Rightarrow> real"
  rows :: "nat \<Rightarrow> nat list"
  cells :: "nat \<Rightarrow> (nat \<times> nat) list"

definition ITERATIONS_matmul :: nat where
  "ITERATIONS_matmul = 5"

text \<open>
  The part of \<^verbatim>\<open>main\<close> from \<^verbatim>\<open>// Verify correctness\<close> to the end, as a function of
  what the three result buffers hold at that point, the three best times and the events
  so far. It returns the exit code and the events.
\<close>

definition matmul_report ::
  "real list \<Rightarrow> real list \<Rightarrow> real list \<Rightarrow> nat \<Rightarrow> real \<Rightarrow> real \<Rightarrow> real \<Rightarrow> event list
     \<Rightarrow> int \<times> event list" where
  "matmul_report C_serial C_parallel C_collapse n ms mp mc ev =
     (let (errors_parallel, out_p) = matmul_verify_results C_serial C_parallel n (1 / 10 ^ 6);
          (errors_collapse, out_c) = matmul_verify_results C_serial C_collapse n (1 / 10 ^ 6)
      in (0,
          ev @ out_p
            @ [Stdout (if errors_parallel = 0 then ''Verification: PASSED''
                       else ''Verification: FAILED'')]
            @ out_c
            @ [Stdout (if errors_collapse = 0 then ''Verification: PASSED''
                       else ''Verification: FAILED''),
               Best ''Serial'' ms, Best ''Parallel'' mp, Best ''Parallel (collapse)'' mc]))"

definition matmul_main :: "matmul_env \<Rightarrow> nat \<Rightarrow> int \<times> event list" where
  "matmul_main env n =
     (if \<not> (malloc_ok env 0 \<and> malloc_ok env 1 \<and> malloc_ok env 2 \<and> malloc_ok env 3
             \<and> malloc_ok env 4)
      then (1, [Stderr ''Memory allocation failed''])
      else
        let A = initialize_matrix (map (garbage env 0) [0..<n * n]) n 1;
            B = initialize_matrix (map (garbage env 1) [0..<n * n]) n 2;
            warm = matmul_parallel (rows env 0) A B (map (garbage env 3) [0..<n * n]) n;
            s1 = timed_loop ITERATIONS_matmul (get_time env) ''matmul_serial''
                   (\<lambda>iter C. matmul_serial A B C n) (map (garbage env 2) [0..<n * n]) 0;
            s2 = timed_loop ITERATIONS_matmul (get_time env) ''matmul_parallel''
                   (\<lambda>iter C. matmul_parallel (rows env (iter + 1)) A B C n) warm (calls s1);
            s3 = timed_loop ITERATIONS_matmul (get_time env) ''matmul_parallel_collapse''
                   (\<lambda>iter C. matmul_parallel_collapse (cells env iter) A B C n)
                   (map (garbage env 4) [0..<n * n]) (calls s2)
        in matmul_report (buf s1) (buf s2) (buf s3) n (min_time s1) (min_time s2) (min_time s3)
             (Ran ''matmul_parallel'' 0 # out s1 @ out s2 @ out s3))"

section \<open>vector\_add.c\<close>

definition vector_add_serial :: "real list \<Rightarrow> real list \<Rightarrow> real list \<Rightarrow> nat \<Rightarrow> real list" where
  "vector_add_serial a b c n = fold (\<lambda>i c. c[i := a ! i + b ! i]) [0..<n] c"

definition vector_add_parallel ::
  "nat list \<Rightarrow> real list \<Rightarrow> real list \<Rightarrow> real list \<Rightarrow> nat \<Rightarrow> real list" where
  "vector_add_parallel sched a b c n = fold (\<lambda>i c. c[i := a ! i + b ! i]) sched c"

text \<open>
  \<^verbatim>\<open>verify_results\<close> of vector\_add.c returns from inside the loop at the first element
  whose difference exceeds the tolerance.
\<close>

fun vector_add_verify_loop ::
  "real list \<Rightarrow> real list \<Rightarrow> real \<Rightarrow> nat list \<Rightarrow> int \<times> event list" where
  "vector_add_verify_loop c1 c2 tolerance [] = (1, [])"
| "vector_add_verify_loop c1 c2 tolerance (i # rest) =
     (if \<bar>c1 ! i - c2 ! i\<bar> > tolerance then (0, [Failed_at i (c1 ! i) (c2 ! i)])
      else vector_add_verify_loop c1 c2 tolerance rest)"

definition vector_add_verify_results ::
  "real list \<Rightarrow> real list \<Rightarrow> nat \<Rightarrow> real \<Rightarrow> int \<times> event list" where
  "vector_add_verify_results c1 c2 n tolerance = vector_add_verify_loop c1 c2 tolerance [0..<n]"

record vector_add_env =
  va_malloc_ok :: "nat \<Rightarrow> bool"
  va_garbage :: "nat \<Rightarrow> nat \<Rightarrow> real"
  va_get_time :: "nat \<Rightarrow> real"
  va_sched :: "nat \<Rightarrow> nat list" \<comment> \<open>the schedule of the k-th parallel loop\<close>

definition ITERATIONS_vector_add :: nat where
  "ITERATIONS_vector_add = 10"

text \<open>The part of \<^verbatim>\<open>main\<close> from \<^verbatim>\<open>// Verify correctness\<close> to the end.\<close>

definition vector_add_report ::
  "real list \<Rightarrow> real list \<Rightarrow> nat \<Rightarrow> real \<Rightarrow> real \<Rightarrow> event list \<Rightarrow> int \<times> event list" where
  "vector_add_report c_serial c_parallel n ms mp ev =
     (let (ok, out_v) = vector_add_verify_results c_serial c_parallel n (1 / 10 ^ 9)
      in if ok \<noteq> 0
         then (0, ev @ out_v @ [Stdout ''Verification: PASSED'',
                                 Best ''serial'' ms, Best ''parallel'' mp])
         else (1, ev @ out_v @ [Stdout ''Verification: FAILED'']))"

definition vector_add_main :: "vector_add_env \<Rightarrow> nat \<Rightarrow> int \<times> event list" where
  "vector_add_main env n =
     (if \<not> (va_malloc_ok env 0 \<and> va_malloc_ok env 1 \<and> va_malloc_ok env 2 \<and> va_malloc_ok env 3)
      then (1, [Stderr ''Memory allocation failed''])
      else
        let (a, b) = fold (\<lambda>i (a, b). (a[i := real i], b[i := real (n - i)])) (va_sched env 0)
                       (map (va_garbage env 0) [0..<n], map (va_garbage env 1) [0..<n]);
            warm = vector_add_parallel (va_sched env 1) a b (map (va_garbage env 3) [0..<n]) n;
            s1 = timed_loop ITERATIONS_vector_add (va_get_time env) ''vector_add_serial''
                   (\<lambda>iter c. vector_add_serial a b c n) (map (va_garbage env 2) [0..<n]) 0;
            s2 = timed_loop ITERATIONS_vector_add (va_get_time env) ''vector_add_parallel''
                   (\<lambda>iter c. vector_add_parallel (va_sched env (iter + 2)) a b c n) warm (calls s1)
        in vector_add_report (buf s1) (buf s2) n (min_time s1) (min_time s2)
             (Ran ''vector_add_parallel'' 0 # out s1 @ out s2))"

section \<open>stream.c\<close>

text \<open>
  The compile-time configuration of the program: the macros \<^verbatim>\<open>STREAM_ARRAY_SIZE\<close>
  (default 10000000), \<^verbatim>\<open>NTIMES\<close> (default 10), \<^verbatim>\<open>OFFSET\<close> (default 0) and the size in
  bytes of \<^verbatim>\<open>STREAM_TYPE\<close> (default \<^verbatim>\<open>double\<close>, 8 bytes).
\<close>

record stream_config =
  STREAM_ARRAY_SIZE :: nat
  NTIMES :: nat
  OFFSET :: nat
  sizeof_STREAM_TYPE :: nat

definition FLT_MAX :: real where
  "FLT_MAX = 340282346638528859811704183484516925440"

subsection \<open>The kernels\<close>

text \<open>
  Each kernel is one loop over \<open>j\<close>; the list \<open>js\<close> is the order of its iterations,
  \<open>[0..<STREAM_ARRAY_SIZE]\<close> in \<^verbatim>\<open>main\<close> (with OpenMP, a schedule: the result is the
  same, as shown below). The last argument is the array written.
\<close>

definition stream_copy :: "nat list \<Rightarrow> real list \<Rightarrow> real list \<Rightarrow> real list" where
  "stream_copy js a c = fold (\<lambda>j c. c[j := a ! j]) js c"

definition stream_scale :: "nat list \<Rightarrow> real \<Rightarrow> real list \<Rightarrow> real list \<Rightarrow> real list" where
  "stream_scale js scalar c b = fold (\<lambda>j b. b[j := scalar * c ! j]) js b"

definition stream_add :: "nat list \<Rightarrow> real list \<Rightarrow> real list \<Rightarrow> real list \<Rightarrow> real list" where
  "stream_add js a b c = fold (\<lambda>j c. c[j := a ! j + b ! j]) js c"

definition stream_triad ::
  "nat list \<Rightarrow> real \<Rightarrow> real list \<Rightarrow> real list \<Rightarrow> real list \<Rightarrow> real list" where
  "stream_triad js scalar b c a = fold (\<lambda>j a. a[j := b ! j + scalar * c ! j]) js a"

text \<open>The loop timed before the trials: \<^verbatim>\<open>a[j] = 2.0E0 * a[j]\<close>.\<close>

definition stream_double :: "nat list \<Rightarrow> real list \<Rightarrow> real list" where
  "stream_double js a = fold (\<lambda>j a. a[j := 2 * a ! j]) js a"

subsection \<open>The main loop\<close>

record stream_state =
  arr_a :: "real list"
  arr_b :: "real list"
  arr_c :: "real list"
  clock_calls :: nat \<comment> \<open>the number of calls of \<^verbatim>\<open>mysecond\<close> so far\<close>
  times :: "real list list" \<comment> \<open>\<^verbatim>\<open>times[4][NTIMES]\<close>\<close>
  events :: "event list"

definition set_time :: "nat \<Rightarrow> nat \<Rightarrow> real \<Rightarrow> real list list \<Rightarrow> real list list" where
  "set_time j k v ts = ts[j := (ts ! j)[k := v]]"

text \<open>
  The four timed kernels of trial \<open>k\<close>. Each reads the clock, runs its loop, reads the
  clock again and stores the difference in \<^verbatim>\<open>times[j][k]\<close>.
\<close>

definition copy_step :: "nat \<Rightarrow> (nat \<Rightarrow> real) \<Rightarrow> nat \<Rightarrow> stream_state \<Rightarrow> stream_state" where
  "copy_step N clk k s =
     (let t0 = clk (clock_calls s);
          c' = stream_copy [0..<N] (arr_a s) (arr_c s);
          t1 = clk (clock_calls s + 1) - t0
      in s\<lparr>arr_c := c', clock_calls := clock_calls s + 2, times := set_time 0 k t1 (times s),
           events := events s @ [Tick, Ran ''Copy'' k, Tick]\<rparr>)"

definition scale_step ::
  "nat \<Rightarrow> (nat \<Rightarrow> real) \<Rightarrow> real \<Rightarrow> nat \<Rightarrow> stream_state \<Rightarrow> stream_state" where
  "scale_step N clk scalar k s =
     (let t0 = clk (clock_calls s);
          b' = stream_scale [0..<N] scalar (arr_c s) (arr_b s);
          t1 = clk (clock_calls s + 1) - t0
      in s\<lparr>arr_b := b', clock_calls := clock_calls s + 2, times := set_time 1 k t1 (times s),
           events := events s @ [Tick, Ran ''Scale'' k, Tick]\<rparr>)"

definition add_step :: "nat \<Rightarrow> (nat \<Rightarrow> real) \<Rightarrow> nat \<Rightarrow> stream_state \<Rightarrow> stream_state" where
  "add_step N clk k s =
     (let t0 = clk (clock_calls s);
          c' = stream_add [0..<N] (arr_a s) (arr_b s) (arr_c s);
          t1 = clk (clock_calls s + 1) - t0
      in s\<lparr>arr_c := c', clock_calls := clock_calls s + 2, times := set_time 2 k t1 (times s),
           events := events s @ [Tick, Ran ''Add'' k, Tick]\<rparr>)"

definition triad_step ::
  "nat \<Rightarrow> (nat \<Rightarrow> real) \<Rightarrow> real \<Rightarrow> nat \<Rightarrow> stream_state \<Rightarrow> stream_state" where
  "triad_step N clk scalar k s =
     (let t0 = clk (clock_calls s);
          a' = stream_triad [0..<N] scalar (arr_b s) (arr_c s) (arr_a s);
          t1 = clk (clock_calls s + 1) - t0
      in s\<lparr>arr_a := a', clock_calls := clock_calls s + 2, times := set_time 3 k t1 (times s),
           events := events s @ [Tick, Ran ''Triad'' k, Tick]\<rparr>)"

text \<open>The body of the loop over \<open>k\<close>, and the loop.\<close>

definition stream_trial ::
  "nat \<Rightarrow> (nat \<Rightarrow> real) \<Rightarrow> real \<Rightarrow> nat \<Rightarrow> stream_state \<Rightarrow> stream_state" where
  "stream_trial N clk scalar k s =
     triad_step N clk scalar k (add_step N clk k (scale_step N clk scalar k (copy_step N clk k s)))"

definition stream_loop ::
  "nat \<Rightarrow> (nat \<Rightarrow> real) \<Rightarrow> real \<Rightarrow> nat \<Rightarrow> stream_state \<Rightarrow> stream_state" where
  "stream_loop N clk scalar ntimes s = fold (stream_trial N clk scalar) [0..<ntimes] s"

subsection \<open>The summary of the timings\<close>

text \<open>
  The static arrays \<^verbatim>\<open>avgtime\<close>, \<^verbatim>\<open>maxtime\<close> (initially 0) and \<^verbatim>\<open>mintime\<close> (initially
  \<^verbatim>\<open>FLT_MAX\<close>), and the loop \<^verbatim>\<open>for (k=1; k<NTIMES; k++) for (j=0; j<4; j++)\<close>.
\<close>

record summary =
  avgtime :: "real list"
  mintime :: "real list"
  maxtime :: "real list"

definition summarize_step :: "real list list \<Rightarrow> nat \<Rightarrow> nat \<Rightarrow> summary \<Rightarrow> summary" where
  "summarize_step ts k j r =
     \<lparr>avgtime = (avgtime r)[j := avgtime r ! j + ts ! j ! k],
      mintime = (mintime r)[j := (if mintime r ! j < ts ! j ! k then mintime r ! j else ts ! j ! k)],
      maxtime = (maxtime r)[j := (if maxtime r ! j > ts ! j ! k then maxtime r ! j else ts ! j ! k)]\<rparr>"

definition summarize :: "nat \<Rightarrow> real list list \<Rightarrow> summary" where
  "summarize ntimes ts =
     fold (\<lambda>k r. fold (summarize_step ts k) [0..<4] r) [1..<ntimes]
       \<lparr>avgtime = [0, 0, 0, 0], mintime = [FLT_MAX, FLT_MAX, FLT_MAX, FLT_MAX],
        maxtime = [0, 0, 0, 0]\<rparr>"

text \<open>
  A division of two doubles. The result is \<open>None\<close> when the divisor is zero: the machine
  result is then not a number (for \<open>0/0\<close>) or an infinity, and no real number.
\<close>

definition c_div :: "real \<Rightarrow> real \<Rightarrow> real option" where
  "c_div x y = (if y = 0 then None else Some (x / y))"

text \<open>\<^verbatim>\<open>avgtime[j] = avgtime[j]/(double)(NTIMES-1)\<close>, for \<open>j\<close> from 0 to 3.\<close>

definition averages :: "nat \<Rightarrow> summary \<Rightarrow> real option list" where
  "averages ntimes r = map (\<lambda>j. c_div (avgtime r ! j) (real_of_int (int ntimes - 1))) [0..<4]"

subsection \<open>\<^verbatim>\<open>checktick\<close>\<close>

definition checktick_M :: nat where
  "checktick_M = 20"

text \<open>
  \<^verbatim>\<open>while (((t2=mysecond()) - t1) < 1.0E-6) ;\<close> from the call number \<open>p\<close> on. The loop
  need not end; the result is the last reading and the number of calls made.
\<close>

partial_function (option) spin :: "(nat \<Rightarrow> real) \<Rightarrow> real \<Rightarrow> nat \<Rightarrow> (real \<times> nat) option" where
  "spin clk t1 p = (if clk p - t1 < 1 / 10 ^ 6 then spin clk t1 (p + 1) else Some (clk p, p + 1))"

text \<open>
  One iteration of the first loop: \<^verbatim>\<open>t1 = mysecond();\<close> the spin, then
  \<^verbatim>\<open>timesfound[i] = t1 = t2\<close>.
\<close>

definition collect_step ::
  "(nat \<Rightarrow> real) \<Rightarrow> nat \<Rightarrow> (real list \<times> nat) option \<Rightarrow> (real list \<times> nat) option" where
  "collect_step clk i st =
     (case st of
        None \<Rightarrow> None
      | Some (timesfound, p) \<Rightarrow>
          (case spin clk (clk p) (p + 1) of
             None \<Rightarrow> None
           | Some (t2, p') \<Rightarrow> Some (timesfound[i := t2], p')))"

definition collect_times :: "(nat \<Rightarrow> real) \<Rightarrow> nat \<Rightarrow> (real list \<times> nat) option" where
  "collect_times clk p = fold (collect_step clk) [0..<checktick_M] (Some (replicate checktick_M 0, p))"

text \<open>
  The statement \<^verbatim>\<open>Delta = (int)(1.0E6 * (timesfound[i]-timesfound[i-1]))\<close> depends on two
  properties of the machine that real arithmetic does not fix. They are parameters of the
  model:

  \<^item> \<open>round_double\<close>, the rounding of the exact result of an operation on doubles to a
    double. The conversion truncates, so a product that is rounded across a whole number
    gives another \<^verbatim>\<open>int\<close>. (In the rest of the theory the operations are exact, by the
    convention of the first section.)
  \<^item> \<open>int_of_large\<close>, the \<^verbatim>\<open>int\<close> that the conversion yields for a double outside the range
    of \<^verbatim>\<open>int\<close>. The C standard leaves this case undefined; the instruction of x86-64
    yields \<open>-2147483648\<close>, that of RISC-V the nearest \<^verbatim>\<open>int\<close>.
\<close>

record platform =
  round_double :: "real \<Rightarrow> real"
  int_of_large :: "real \<Rightarrow> int"

definition INT_MIN :: int where
  "INT_MIN = - 2147483648"

definition INT_MAX :: int where
  "INT_MAX = 2147483647"

text \<open>The doubles whose truncation towards zero is an \<^verbatim>\<open>int\<close>.\<close>

definition in_int_range :: "real \<Rightarrow> bool" where
  "in_int_range x = (real_of_int INT_MIN - 1 < x \<and> x < real_of_int INT_MAX + 1)"

definition toward_zero :: "real \<Rightarrow> int" where
  "toward_zero x = (if 0 \<le> x then \<lfloor>x\<rfloor> else \<lceil>x\<rceil>)"

text \<open>A value of the platform read as a 32-bit \<^verbatim>\<open>int\<close>.\<close>

definition as_int :: "int \<Rightarrow> int" where
  "as_int v = (v - INT_MIN) mod 2 ^ 32 + INT_MIN"

text \<open>The conversion \<^verbatim>\<open>(int)\<close> of a double.\<close>

definition c_int :: "platform \<Rightarrow> real \<Rightarrow> int" where
  "c_int pf x = (if in_int_range x then toward_zero x else as_int (int_of_large pf x))"

text \<open>The double \<^verbatim>\<open>1.0E6 * (x - y)\<close>: a difference and a product, each rounded.\<close>

definition micro_delta :: "platform \<Rightarrow> real \<Rightarrow> real \<Rightarrow> real" where
  "micro_delta pf x y = round_double pf (10 ^ 6 * round_double pf (x - y))"

text \<open>The second loop, from \<^verbatim>\<open>minDelta = 1000000\<close>.\<close>

definition min_delta :: "platform \<Rightarrow> real list \<Rightarrow> int" where
  "min_delta pf timesfound =
     fold (\<lambda>i minDelta.
             let Delta = c_int pf (micro_delta pf (timesfound ! i) (timesfound ! (i - 1)))
             in if minDelta < Delta then minDelta else Delta)
       [1..<checktick_M] 1000000"

definition checktick :: "platform \<Rightarrow> (nat \<Rightarrow> real) \<Rightarrow> nat \<Rightarrow> (int \<times> nat) option" where
  "checktick pf clk p =
     (case collect_times clk p of
        None \<Rightarrow> None
      | Some (timesfound, p') \<Rightarrow> Some (min_delta pf timesfound, p'))"

text \<open>The caller in \<^verbatim>\<open>main\<close>: \<^verbatim>\<open>if ((quantum = checktick()) >= 1) ... else quantum = 1\<close>.\<close>

definition quantum_of :: "int \<Rightarrow> int" where
  "quantum_of q = (if q \<ge> 1 then q else 1)"

subsection \<open>\<^verbatim>\<open>checkSTREAMresults\<close>\<close>

text \<open>The macro \<^verbatim>\<open>abs(a) ((a) >= 0 ? (a) : -(a))\<close>.\<close>

definition stream_abs :: "real \<Rightarrow> real" where
  "stream_abs x = (if x \<ge> 0 then x else - x)"

text \<open>The body of the loop that reproduces the kernels on three scalars.\<close>

definition expected_step :: "real \<Rightarrow> real \<times> real \<times> real \<Rightarrow> real \<times> real \<times> real" where
  "expected_step scalar v =
     (case v of (aj, bj, cj) \<Rightarrow>
        let cj = aj;
            bj = scalar * cj;
            cj = aj + bj;
            aj = bj + scalar * cj
        in (aj, bj, cj))"

text \<open>
  \<^verbatim>\<open>aj = 1.0; bj = 2.0; cj = 0.0; aj = 2.0E0 * aj; scalar = 3.0;\<close> and the loop over
  \<open>k\<close>.
\<close>

definition expected_values :: "nat \<Rightarrow> real \<times> real \<times> real" where
  "expected_values ntimes = fold (\<lambda>k. expected_step 3) [0..<ntimes] (2 * 1, 2, 0)"

text \<open>
  The sum of the absolute errors of one array. (The source accumulates the sums of the
  three arrays in one loop.)
\<close>

definition sum_errors :: "nat \<Rightarrow> real list \<Rightarrow> real \<Rightarrow> real" where
  "sum_errors N xs xj = fold (\<lambda>j SumErr. SumErr + stream_abs (xs ! j - xj)) [0..<N] 0"

definition epsilon_of :: "nat \<Rightarrow> real" where
  "epsilon_of size_of_type =
     (if size_of_type = 4 then 1 / 10 ^ 6
      else if size_of_type = 8 then 1 / 10 ^ 13
      else 1 / 10 ^ 6)"

text \<open>
  The test \<^verbatim>\<open>abs(aAvgErr/aj) > epsilon\<close>. When the expected value is zero the machine
  quotient is not a number for a zero error (and the comparison is false) and an infinity
  otherwise (and the comparison is true).
\<close>

definition exceeds :: "real \<Rightarrow> real \<Rightarrow> real \<Rightarrow> bool" where
  "exceeds AvgErr xj epsilon =
     (if xj = 0 then AvgErr \<noteq> 0 else stream_abs (AvgErr / xj) > epsilon)"

text \<open>The loop that counts the elements with \<^verbatim>\<open>abs(a[j]/aj-1.0) > epsilon\<close>.\<close>

definition count_errors :: "nat \<Rightarrow> real list \<Rightarrow> real \<Rightarrow> real \<Rightarrow> nat" where
  "count_errors N xs xj epsilon =
     fold (\<lambda>j ierr.
             if (if xj = 0 then xs ! j \<noteq> 0 else stream_abs (xs ! j / xj - 1) > epsilon)
             then ierr + 1 else ierr)
       [0..<N] 0"

text \<open>The check of one array: the increment of \<^verbatim>\<open>err\<close> and the lines printed.\<close>

definition check_array :: "string \<Rightarrow> nat \<Rightarrow> real list \<Rightarrow> real \<Rightarrow> real \<Rightarrow> nat \<times> event list" where
  "check_array name N xs xj epsilon =
     (let AvgErr = sum_errors N xs xj / real N
      in if exceeds AvgErr xj epsilon
         then (1, [Stdout (''Failed Validation on array '' @ name),
                   Errors_found name (count_errors N xs xj epsilon)])
         else (0, []))"

text \<open>
  \<^verbatim>\<open>checkSTREAMresults\<close> returns nothing; the model gives its counter \<^verbatim>\<open>err\<close> and the
  lines it prints.
\<close>

definition checkSTREAMresults ::
  "stream_config \<Rightarrow> real list \<Rightarrow> real list \<Rightarrow> real list \<Rightarrow> nat \<times> event list" where
  "checkSTREAMresults cfg a b c =
     (let (aj, bj, cj) = expected_values (NTIMES cfg);
          N = STREAM_ARRAY_SIZE cfg;
          epsilon = epsilon_of (sizeof_STREAM_TYPE cfg);
          weird = (if sizeof_STREAM_TYPE cfg = 4 \<or> sizeof_STREAM_TYPE cfg = 8 then []
                   else [Stdout ''WEIRD: sizeof(STREAM_TYPE)'']);
          (ea, oa) = check_array ''a[]'' N a aj epsilon;
          (eb, ob) = check_array ''b[]'' N b bj epsilon;
          (ec, oc) = check_array ''c[]'' N c cj epsilon;
          err = ea + eb + ec
      in (err, weird @ oa @ ob @ oc
               @ (if err = 0 then [Stdout ''Solution Validates''] else [])))"

subsection \<open>\<^verbatim>\<open>main\<close> of stream.c\<close>

record stream_result =
  exit_code :: int
  quantum :: int
  final_a :: "real list"
  final_b :: "real list"
  final_c :: "real list"
  avg_times :: "real option list"
  min_times :: "real list"
  max_times :: "real list"
  validation_errors :: nat
  printed :: "event list"

text \<open>
  The arrays are static, so there is no allocation at run time; they start as zeros.
  The run does not return when a spin of \<^verbatim>\<open>checktick\<close> does not end.
\<close>

text \<open>The arrays after the loop \<^verbatim>\<open>a[j] = 1.0; b[j] = 2.0; c[j] = 0.0\<close>.\<close>

definition stream_init :: "stream_config \<Rightarrow> real list \<times> real list \<times> real list" where
  "stream_init cfg =
     (let zeros = replicate (STREAM_ARRAY_SIZE cfg + OFFSET cfg) 0
      in fold (\<lambda>j (a, b, c). (a[j := 1], b[j := 2], c[j := 0])) [0..<STREAM_ARRAY_SIZE cfg]
           (zeros, zeros, zeros))"

text \<open>
  The state when the main loop starts, after \<^verbatim>\<open>checktick\<close> has made \<open>p\<close> calls of the
  clock and the loop that doubles \<^verbatim>\<open>a\<close> has been timed.
\<close>

definition stream_start :: "stream_config \<Rightarrow> nat \<Rightarrow> stream_state" where
  "stream_start cfg p =
     (let (a, b, c) = stream_init cfg
      in \<lparr>arr_a = stream_double [0..<STREAM_ARRAY_SIZE cfg] a, arr_b = b, arr_c = c,
          clock_calls = p + 2,
          times = replicate 4 (replicate (NTIMES cfg) 0),
          events = replicate p Tick @ [Tick, Ran ''Double'' 0, Tick]\<rparr>)"

text \<open>
  The part of \<^verbatim>\<open>main\<close> from \<^verbatim>\<open>/* Summarize results */\<close> to \<^verbatim>\<open>return 0\<close>, as a function
  of the state the main loop leaves.
\<close>

definition stream_report :: "stream_config \<Rightarrow> int \<Rightarrow> stream_state \<Rightarrow> stream_result" where
  "stream_report cfg q s =
     (let r = summarize (NTIMES cfg) (times s);
          (err, out_check) = checkSTREAMresults cfg (arr_a s) (arr_b s) (arr_c s)
      in \<lparr>exit_code = 0, quantum = q,
          final_a = arr_a s, final_b = arr_b s, final_c = arr_c s,
          avg_times = averages (NTIMES cfg) r,
          min_times = mintime r, max_times = maxtime r,
          validation_errors = err,
          printed = events s @ out_check\<rparr>)"

definition stream_main ::
  "platform \<Rightarrow> stream_config \<Rightarrow> (nat \<Rightarrow> real) \<Rightarrow> stream_result option" where
  "stream_main pf cfg clk =
     (case checktick pf clk 0 of
        None \<Rightarrow> None
      | Some (q, p) \<Rightarrow>
          Some (stream_report cfg (quantum_of q)
                  (stream_loop (STREAM_ARRAY_SIZE cfg) clk 3 (NTIMES cfg) (stream_start cfg p))))"

subsection \<open>Notions used to state the properties\<close>

text \<open>Element \<open>i\<close> of the candidate differs from the reference by more than the tolerance.\<close>

definition flagged :: "real list \<Rightarrow> real list \<Rightarrow> real \<Rightarrow> nat \<Rightarrow> bool" where
  "flagged reference candidate tolerance i = (\<bar>reference ! i - candidate ! i\<bar> > tolerance)"

text \<open>The kernel executions among the events of a run, and the timestamp calls.\<close>

fun is_Ran :: "event \<Rightarrow> bool" where
  "is_Ran (Ran name k) = True"
| "is_Ran e = False"

text \<open>
  The first \<open>N\<close> elements of each of the three arrays of a state are equal to one
  another: to \<open>x\<close> in \<^verbatim>\<open>a\<close>, to \<open>y\<close> in \<^verbatim>\<open>b\<close> and to \<open>z\<close> in \<^verbatim>\<open>c\<close>.
\<close>

definition uniform_state :: "nat \<Rightarrow> stream_state \<Rightarrow> real \<times> real \<times> real \<Rightarrow> bool" where
  "uniform_state N s v =
     (case v of (x, y, z) \<Rightarrow>
        take N (arr_a s) = replicate N x \<and> take N (arr_b s) = replicate N y
        \<and> take N (arr_c s) = replicate N z)"

text \<open>
  The states of the main loop around the kernels of trial \<open>k\<close>, started in \<open>s0\<close>: when the
  trial begins, and after each of its four kernels.
\<close>

definition before_trial ::
  "nat \<Rightarrow> (nat \<Rightarrow> real) \<Rightarrow> real \<Rightarrow> nat \<Rightarrow> stream_state \<Rightarrow> stream_state" where
  "before_trial N clk scalar k s0 = stream_loop N clk scalar k s0"

definition after_copy ::
  "nat \<Rightarrow> (nat \<Rightarrow> real) \<Rightarrow> real \<Rightarrow> nat \<Rightarrow> stream_state \<Rightarrow> stream_state" where
  "after_copy N clk scalar k s0 = copy_step N clk k (before_trial N clk scalar k s0)"

definition after_scale ::
  "nat \<Rightarrow> (nat \<Rightarrow> real) \<Rightarrow> real \<Rightarrow> nat \<Rightarrow> stream_state \<Rightarrow> stream_state" where
  "after_scale N clk scalar k s0 = scale_step N clk scalar k (after_copy N clk scalar k s0)"

definition after_add ::
  "nat \<Rightarrow> (nat \<Rightarrow> real) \<Rightarrow> real \<Rightarrow> nat \<Rightarrow> stream_state \<Rightarrow> stream_state" where
  "after_add N clk scalar k s0 = add_step N clk k (after_scale N clk scalar k s0)"

definition after_triad ::
  "nat \<Rightarrow> (nat \<Rightarrow> real) \<Rightarrow> real \<Rightarrow> nat \<Rightarrow> stream_state \<Rightarrow> stream_state" where
  "after_triad N clk scalar k s0 = triad_step N clk scalar k (after_add N clk scalar k s0)"

text \<open>The kernel executions of trial \<open>k\<close>, in the order of the source.\<close>

definition trial_kernels :: "nat \<Rightarrow> event list" where
  "trial_kernels k = [Ran ''Copy'' k, Ran ''Scale'' k, Ran ''Add'' k, Ran ''Triad'' k]"

text \<open>
  The average relative absolute error of an array against the expected value \<open>xj\<close>: the
  sum of \<open>\<bar>observed - expected\<bar>\<close> over the first \<open>N\<close> elements, divided by \<open>N\<close>, divided
  by the expected value.
\<close>

definition avg_rel_abs_err :: "nat \<Rightarrow> real list \<Rightarrow> real \<Rightarrow> real" where
  "avg_rel_abs_err N xs xj = (\<Sum>j<N. \<bar>xs ! j - xj\<bar>) / real N / xj"

text \<open>
  Assumptions on the clock and what it means for a reading to come out of a spin. The
  clock advances when after every call some later call returns a value at least one
  microsecond greater. A reading is sampled when it is the first reading, after some call
  \<open>r\<close>, that is at least one microsecond greater than the reading of \<open>r\<close>.
\<close>

definition clock_advances :: "(nat \<Rightarrow> real) \<Rightarrow> bool" where
  "clock_advances clk = (\<forall>p. \<exists>q>p. 1 / 10 ^ 6 \<le> clk q - clk p)"

definition sampled :: "(nat \<Rightarrow> real) \<Rightarrow> real \<Rightarrow> bool" where
  "sampled clk t =
     (\<exists>r s. r < s \<and> t = clk s \<and> 1 / 10 ^ 6 \<le> clk s - clk r
        \<and> (\<forall>q. r < q \<and> q < s \<longrightarrow> clk q - clk r < 1 / 10 ^ 6))"



text \<open>
  The platform of the examples: the operations on the doubles of the examples are exact
  (the readings are whole seconds or multiples of 1/64 second), and the conversion of a
  double outside the range of \<^verbatim>\<open>int\<close> yields \<^verbatim>\<open>INT_MIN\<close>, as on x86-64.
\<close>

definition example_platform :: platform where
  "example_platform = \<lparr>round_double = (\<lambda>x. x), int_of_large = (\<lambda>x. INT_MIN)\<rparr>"



fun is_Stderr :: "event \<Rightarrow> bool" where
  "is_Stderr (Stderr msg) = True"
| "is_Stderr e = False"

section \<open>Properties\<close>

subsection \<open>Stores of a loop whose values do not depend on the target array\<close>

lemma fold_store_nth:
  assumes "idx < length C" and "\<And>p. p \<in> set ps \<Longrightarrow> v p = w (g p)"
  shows "fold (\<lambda>p C. C[g p := v p]) ps C ! idx = (if idx \<in> g ` set ps then w idx else C ! idx)"
  using assms
proof (induction ps arbitrary: C)
  case Nil
  then show ?case by simp
next
  case (Cons p ps)
  have len: "idx < length (C[g p := v p])" using Cons.prems(1) by simp
  have rest: "\<And>q. q \<in> set ps \<Longrightarrow> v q = w (g q)" using Cons.prems(2) by simp
  have vp: "v p = w (g p)" using Cons.prems(2) by simp
  show ?case
    using Cons.IH [OF len rest] Cons.prems(1) vp
    by (auto simp: nth_list_update)
qed

lemma fold_store_length: "length (fold (\<lambda>p C. C[g p := v p]) ps C) = length C"
  by (induction ps arbitrary: C) auto

lemma cell_body_store: "cell_body A B n = (\<lambda>p C. C[fst p * n + snd p := cell_sum A B n (fst p) (snd p)])"
  by (auto simp: cell_body_def fun_eq_iff split: prod.splits)

lemma fold_cells_nth:
  assumes "idx < n * n" and "length C = n * n" and "set cs = {0..<n} \<times> {0..<n}"
  shows "fold (cell_body A B n) cs C ! idx = cell_sum A B n (idx div n) (idx mod n)"
proof -
  have n: "0 < n" using assms(1) by (cases n) auto
  have w: "\<And>p. p \<in> set cs \<Longrightarrow>
      cell_sum A B n (fst p) (snd p)
        = cell_sum A B n ((fst p * n + snd p) div n) ((fst p * n + snd p) mod n)"
    using assms(3) by auto
  have "idx div n < n" using assms(1) n by (simp add: less_mult_imp_div_less)
  moreover have "idx mod n < n" using n by simp
  ultimately have "(idx div n, idx mod n) \<in> set cs" using assms(3) by simp
  then have "(\<lambda>p. fst p * n + snd p) (idx div n, idx mod n) \<in> (\<lambda>p. fst p * n + snd p) ` set cs"
    by (rule imageI)
  then have mem: "idx \<in> (\<lambda>p. fst p * n + snd p) ` set cs" by simp
  have "idx < length C" using assms(1,2) by simp
  from fold_store_nth [where g = "\<lambda>p. fst p * n + snd p"
      and v = "\<lambda>p. cell_sum A B n (fst p) (snd p)"
      and w = "\<lambda>x. cell_sum A B n (x div n) (x mod n)", OF this w]
  show ?thesis using mem by (simp add: cell_body_store)
qed

lemma fold_rows_as_cells:
  "fold (row_body A B n) rs C
     = fold (cell_body A B n) (concat (map (\<lambda>i. map (Pair i) [0..<n]) rs)) C"
  by (induction rs arbitrary: C) (auto simp: row_body_def fold_map comp_def)

lemma rows_cover:
  "set rs = {0..<n} \<Longrightarrow> set (concat (map (\<lambda>i. map (Pair i) [0..<n]) rs)) = {0..<n} \<times> {0..<n}"
  by auto

lemma matmul_serial_nth:
  assumes "idx < n * n" and "length C = n * n"
  shows "matmul_serial A B C n ! idx = cell_sum A B n (idx div n) (idx mod n)"
  unfolding matmul_serial_def fold_rows_as_cells
  by (rule fold_cells_nth [OF assms]) auto

lemma matmul_parallel_nth:
  assumes "idx < n * n" and "length C = n * n" and "row_schedule n rs"
  shows "matmul_parallel rs A B C n ! idx = cell_sum A B n (idx div n) (idx mod n)"
  unfolding matmul_parallel_def fold_rows_as_cells
  using assms(3) by (intro fold_cells_nth [OF assms(1,2)] rows_cover) (simp add: row_schedule_def)

lemma matmul_parallel_collapse_nth:
  assumes "idx < n * n" and "length C = n * n" and "cell_schedule n cs"
  shows "matmul_parallel_collapse cs A B C n ! idx = cell_sum A B n (idx div n) (idx mod n)"
  unfolding matmul_parallel_collapse_def
  using assms(3) by (intro fold_cells_nth [OF assms(1,2)]) (simp add: cell_schedule_def)

subsection \<open>The three matrix products agree\<close>

text \<open>
  Claim C1. For every size \<open>n\<close>, all input matrices \<open>A\<close> and \<open>B\<close>, whatever the
  result buffers held before and whatever the schedules of the two parallel loops,
  \<^verbatim>\<open>matmul_serial\<close>, \<^verbatim>\<open>matmul_parallel\<close> and \<^verbatim>\<open>matmul_parallel_collapse\<close> leave the same
  matrix in their result buffers; in particular every pair of corresponding entries
  differs by at most \<open>1e-6\<close> in absolute value.
\<close>

theorem matmul_variants_agree:
  assumes "length A = n * n" and "length B = n * n"
    and "length Cs = n * n" and "length Cp = n * n" and "length Cc = n * n"
    and "row_schedule n rs" and "cell_schedule n cs"
  shows "matmul_parallel rs A B Cp n = matmul_serial A B Cs n
       \<and> matmul_parallel_collapse cs A B Cc n = matmul_serial A B Cs n
       \<and> (\<forall>idx<n * n.
            \<bar>matmul_serial A B Cs n ! idx - matmul_parallel rs A B Cp n ! idx\<bar> \<le> 1 / 10 ^ 6
          \<and> \<bar>matmul_serial A B Cs n ! idx - matmul_parallel_collapse cs A B Cc n ! idx\<bar> \<le> 1 / 10 ^ 6
          \<and> \<bar>matmul_parallel rs A B Cp n ! idx - matmul_parallel_collapse cs A B Cc n ! idx\<bar> \<le> 1 / 10 ^ 6)"
proof -
  have ls: "length (matmul_serial A B Cs n) = n * n"
    by (simp add: matmul_serial_def fold_rows_as_cells cell_body_store fold_store_length assms(3))
  have lp: "length (matmul_parallel rs A B Cp n) = n * n"
    by (simp add: matmul_parallel_def fold_rows_as_cells cell_body_store fold_store_length assms(4))
  have lc: "length (matmul_parallel_collapse cs A B Cc n) = n * n"
    by (simp add: matmul_parallel_collapse_def cell_body_store fold_store_length assms(5))
  have p: "matmul_parallel rs A B Cp n = matmul_serial A B Cs n"
    by (rule nth_equalityI)
      (simp_all add: ls lp matmul_serial_nth matmul_parallel_nth assms(3,4,6))
  have c: "matmul_parallel_collapse cs A B Cc n = matmul_serial A B Cs n"
    by (rule nth_equalityI)
      (simp_all add: ls lc matmul_serial_nth matmul_parallel_collapse_nth assms(3,5,7))
  show ?thesis by (simp add: p c)
qed

theorem matmul_variants_agree_witness:
  "row_schedule 2 [1, 0] \<and> cell_schedule 2 [(1, 1), (0, 0), (1, 0), (0, 1)]
   \<and> matmul_serial [1, 2, 3, 4] [5, 6, 7, 8] [0, 0, 0, 0] 2 = [19, 22, 43, 50]
   \<and> matmul_parallel [1, 0] [1, 2, 3, 4] [5, 6, 7, 8] [9, 9, 9, 9] 2 = [19, 22, 43, 50]
   \<and> matmul_parallel_collapse [(1, 1), (0, 0), (1, 0), (0, 1)] [1, 2, 3, 4] [5, 6, 7, 8] [7, 7, 7, 7] 2
       = [19, 22, 43, 50]
   \<and> \<bar>matmul_serial [1, 2, 3, 4] [5, 6, 7, 8] [0, 0, 0, 0] 2 ! 3
        - matmul_parallel [1, 0] [1, 2, 3, 4] [5, 6, 7, 8] [9, 9, 9, 9] 2 ! 3\<bar> \<le> 1 / 10 ^ 6"
proof -
  have rs: "row_schedule 2 [1, 0]"
    by (auto simp: row_schedule_def)
  have cs: "cell_schedule 2 [(1, 1), (0, 0), (1, 0), (0, 1)]"
    by (auto simp: cell_schedule_def)
  have ser: "matmul_serial [1, 2, 3, 4] [5, 6, 7, 8] [0, 0, 0, 0] 2 = [19, 22, 43, 50]"
    by (simp add: matmul_serial_def row_body_def cell_body_def cell_sum_def upt_rec)
  have "length [1, 2, 3, 4 :: real] = 2 * 2" "length [5, 6, 7, 8 :: real] = 2 * 2"
    "length [0, 0, 0, 0 :: real] = 2 * 2" "length [9, 9, 9, 9 :: real] = 2 * 2"
    "length [7, 7, 7, 7 :: real] = 2 * 2"
    by simp_all
  from matmul_variants_agree [OF this rs cs] rs cs ser show ?thesis
    by simp
qed

subsection \<open>The two buffer comparisons\<close>

lemma matmul_verify_fold:
  "fold (matmul_verify_step C1 C2 t) js (e, ev)
     = (e + length (filter (flagged C1 C2 t) js),
        ev @ map (\<lambda>i. Mismatch i (C1 ! i) (C2 ! i) \<bar>C1 ! i - C2 ! i\<bar>)
               (take (5 - e) (filter (flagged C1 C2 t) js)))"
proof (induction js arbitrary: e ev)
  case Nil
  then show ?case by simp
next
  case (Cons i js)
  show ?case
  proof (cases "flagged C1 C2 t i")
    case True
    then have step: "matmul_verify_step C1 C2 t i (e, ev)
        = (e + 1, if e + 1 \<le> 5 then ev @ [Mismatch i (C1 ! i) (C2 ! i) \<bar>C1 ! i - C2 ! i\<bar>] else ev)"
      by (simp add: matmul_verify_step_def flagged_def)
    show ?thesis
    proof (cases "e + 1 \<le> 5")
      case le: True
      then obtain d where d: "5 - e = Suc d" "5 - (e + 1) = d"
        by (cases "5 - e") auto
      show ?thesis using True le d by (simp add: step Cons.IH)
    next
      case gt: False
      then have "5 - e = 0" "5 - (e + 1) = 0" by auto
      then show ?thesis using True gt by (simp add: step Cons.IH)
    qed
  next
    case False
    then have "matmul_verify_step C1 C2 t i (e, ev) = (e, ev)"
      by (simp add: matmul_verify_step_def flagged_def)
    then show ?thesis using False by (simp add: Cons.IH)
  qed
qed

lemma vector_add_verify_loop_eq:
  "vector_add_verify_loop c1 c2 t js
     = (case filter (flagged c1 c2 t) js of
          [] \<Rightarrow> (1, [])
        | i # rest \<Rightarrow> (0, [Failed_at i (c1 ! i) (c2 ! i)]))"
  by (induction js) (auto simp: flagged_def)

text \<open>
  Claim C2, as amended. Both verifiers flag element \<open>i\<close> exactly when
  \<open>\<bar>reference[i] - candidate[i]\<bar> > tolerance\<close>. \<^verbatim>\<open>verify_results\<close> of matmul.c scans the
  whole buffer, prints a line (index, both values, absolute difference) for the first 5
  flagged elements only and returns the number of flagged elements; the verification
  passes iff that number is 0. \<^verbatim>\<open>verify_results\<close> of vector\_add.c stops at the first
  flagged element, prints that element only (index and both values) and returns 0; it
  returns 1 when no element is flagged, and the verification passes iff it returns a
  value other than 0.
\<close>

theorem verify_results_behaviour:
  assumes "length C1 = n * n" and "length C2 = n * n"
    and "length c1 = m" and "length c2 = m"
  shows "matmul_verify_results C1 C2 n t
           = (length (filter (flagged C1 C2 t) [0..<n * n]),
              map (\<lambda>i. Mismatch i (C1 ! i) (C2 ! i) \<bar>C1 ! i - C2 ! i\<bar>)
                (take 5 (filter (flagged C1 C2 t) [0..<n * n])))
       \<and> (fst (matmul_verify_results C1 C2 n t) = 0
            \<longleftrightarrow> filter (flagged C1 C2 t) [0..<n * n] = [])
       \<and> vector_add_verify_results c1 c2 m t'
           = (case filter (flagged c1 c2 t') [0..<m] of
                [] \<Rightarrow> (1, [])
              | i # rest \<Rightarrow> (0, [Failed_at i (c1 ! i) (c2 ! i)]))
       \<and> (fst (vector_add_verify_results c1 c2 m t') \<noteq> 0
            \<longleftrightarrow> filter (flagged c1 c2 t') [0..<m] = [])"
proof -
  have mm: "matmul_verify_results C1 C2 n t
           = (length (filter (flagged C1 C2 t) [0..<n * n]),
              map (\<lambda>i. Mismatch i (C1 ! i) (C2 ! i) \<bar>C1 ! i - C2 ! i\<bar>)
                (take 5 (filter (flagged C1 C2 t) [0..<n * n])))"
    by (simp add: matmul_verify_results_def matmul_verify_fold)
  have va: "vector_add_verify_results c1 c2 m t'
           = (case filter (flagged c1 c2 t') [0..<m] of
                [] \<Rightarrow> (1, [])
              | i # rest \<Rightarrow> (0, [Failed_at i (c1 ! i) (c2 ! i)]))"
    by (simp add: vector_add_verify_results_def vector_add_verify_loop_eq)
  have va0: "fst (vector_add_verify_results c1 c2 m t') \<noteq> 0
            \<longleftrightarrow> filter (flagged c1 c2 t') [0..<m] = []"
    unfolding va by (simp split: list.splits)
  show ?thesis using mm va va0 by simp
qed

theorem verify_results_behaviour_witness:
  "matmul_verify_results [0, 0, 0, 0] [1, 0, 2, 0] 2 (1 / 10 ^ 6)
     = (2, [Mismatch 0 0 1 1, Mismatch 2 0 2 2])
   \<and> vector_add_verify_results [0, 0, 0] [0, 1, 2] 3 (1 / 10 ^ 9) = (0, [Failed_at 1 0 1])"
proof -
  have f1: "filter (flagged [0, 0, 0, 0] [1, 0, 2, 0] (1 / 10 ^ 6)) [0..<2 * 2] = [0, 2]"
    by (simp add: flagged_def upt_rec)
  have f2: "filter (flagged [0, 0, 0] [0, 1, 2] (1 / 10 ^ 9)) [0..<3] = [1, 2]"
    by (simp add: flagged_def upt_rec)
  have "length [0, 0, 0, 0 :: real] = 2 * 2" "length [1, 0, 2, 0 :: real] = 2 * 2"
    "length [0, 0, 0 :: real] = 3" "length [0, 1, 2 :: real] = 3"
    by simp_all
  from verify_results_behaviour [OF this, of "1 / 10 ^ 6" "1 / 10 ^ 9"] show ?thesis
    unfolding f1 f2 by simp
qed

text \<open>
  The claim as stated fails for \<^verbatim>\<open>verify_results\<close> of vector\_add.c: with two flagged
  elements it reports one and returns 0, and with none it returns 1, so the value it
  returns is not the number of errors.
\<close>

theorem verify_results_counterexample:
  "vector_add_verify_results [0, 0, 0] [1, 0, 2] 3 (1 / 10 ^ 9) = (0, [Failed_at 0 0 1])
   \<and> length (filter (flagged [0, 0, 0] [1, 0, 2] (1 / 10 ^ 9)) [0..<3]) = 2
   \<and> vector_add_verify_results [0, 0, 0] [0, 0, 0] 3 (1 / 10 ^ 9) = (1, [])
   \<and> length (filter (flagged [0, 0, 0] [0, 0, 0] (1 / 10 ^ 9)) [0..<3]) = 0"
  by (simp add: vector_add_verify_results_def flagged_def upt_rec)

subsection \<open>The STREAM kernels on elementwise constant arrays\<close>

lemma fold_store_self_nth:
  assumes "i < length xs" and "distinct js"
  shows "fold (\<lambda>j xs. xs[j := f (xs ! j)]) js xs ! i = (if i \<in> set js then f (xs ! i) else xs ! i)"
  using assms
proof (induction js arbitrary: xs)
  case Nil
  then show ?case by simp
next
  case (Cons j js)
  have "i < length (xs[j := f (xs ! j)])" using Cons.prems(1) by simp
  moreover have "distinct js" using Cons.prems(2) by simp
  ultimately have
    "fold (\<lambda>j xs. xs[j := f (xs ! j)]) js (xs[j := f (xs ! j)]) ! i
       = (if i \<in> set js then f (xs[j := f (xs ! j)] ! i) else xs[j := f (xs ! j)] ! i)"
    by (rule Cons.IH)
  then show ?case using Cons.prems by (cases "i = j") (auto simp: nth_list_update)
qed

lemma fold_store_self_length: "length (fold (\<lambda>j xs. xs[j := f (xs ! j)]) js xs) = length xs"
  by (induction js arbitrary: xs) auto

lemma take_fold_store:
  assumes "N \<le> length xs"
  shows "take N (fold (\<lambda>j xs. xs[j := w j]) [0..<N] xs) = map w [0..<N]"
proof (rule nth_equalityI)
  show "length (take N (fold (\<lambda>j xs. xs[j := w j]) [0..<N] xs)) = length (map w [0..<N])"
    using assms fold_store_length [where g = "\<lambda>j. j" and v = w] by simp
next
  fix i assume "i < length (take N (fold (\<lambda>j xs. xs[j := w j]) [0..<N] xs))"
  then have i: "i < N" by simp
  then have "i < length xs" using assms by simp
  from fold_store_nth [where g = "\<lambda>j. j" and v = w and w = w and ps = "[0..<N]", OF this]
  have "fold (\<lambda>j xs. xs[j := w j]) [0..<N] xs ! i = w i" using i by simp
  then show "take N (fold (\<lambda>j xs. xs[j := w j]) [0..<N] xs) ! i = map w [0..<N] ! i"
    using i by simp
qed

lemma map_nth_replicate:
  assumes "take N xs = replicate N x"
  shows "map (\<lambda>j. h (xs ! j)) [0..<N] = replicate N (h x)"
proof (rule nth_equalityI)
  show "length (map (\<lambda>j. h (xs ! j)) [0..<N]) = length (replicate N (h x))" by simp
next
  fix i assume "i < length (map (\<lambda>j. h (xs ! j)) [0..<N])"
  then have i: "i < N" by simp
  then have "xs ! i = take N xs ! i" by simp
  also have "\<dots> = x" using assms i by simp
  finally show "map (\<lambda>j. h (xs ! j)) [0..<N] ! i = replicate N (h x) ! i" using i by simp
qed

lemma take_replicate_length: "take N xs = replicate N x \<Longrightarrow> N \<le> length xs"
  by (metis length_replicate length_take min.cobounded1 min_def order_refl)

lemma stream_copy_uniform:
  assumes "take N a = replicate N x" and "N \<le> length c"
  shows "take N (stream_copy [0..<N] a c) = replicate N x"
  unfolding stream_copy_def
  using take_fold_store [OF assms(2), of "\<lambda>j. a ! j"] map_nth_replicate [OF assms(1), of "\<lambda>v. v"]
  by simp

lemma stream_scale_uniform:
  assumes "take N c = replicate N z" and "N \<le> length b"
  shows "take N (stream_scale [0..<N] scalar c b) = replicate N (scalar * z)"
  unfolding stream_scale_def
  using take_fold_store [OF assms(2), of "\<lambda>j. scalar * c ! j"]
    map_nth_replicate [OF assms(1), of "\<lambda>v. scalar * v"]
  by simp

lemma map_nth2_replicate:
  assumes "take N xs = replicate N x" and "take N ys = replicate N y"
  shows "map (\<lambda>j. h (xs ! j) (ys ! j)) [0..<N] = replicate N (h x y)"
proof (rule nth_equalityI)
  show "length (map (\<lambda>j. h (xs ! j) (ys ! j)) [0..<N]) = length (replicate N (h x y))" by simp
next
  fix i assume "i < length (map (\<lambda>j. h (xs ! j) (ys ! j)) [0..<N])"
  then have i: "i < N" by simp
  have "take N xs ! i = x" "take N ys ! i = y" using assms i by simp_all
  then have "xs ! i = x" "ys ! i = y" using i by simp_all
  then show "map (\<lambda>j. h (xs ! j) (ys ! j)) [0..<N] ! i = replicate N (h x y) ! i"
    using i by simp
qed

lemma stream_add_uniform:
  assumes "take N a = replicate N x" and "take N b = replicate N y" and "N \<le> length c"
  shows "take N (stream_add [0..<N] a b c) = replicate N (x + y)"
  unfolding stream_add_def
  using take_fold_store [OF assms(3), of "\<lambda>j. a ! j + b ! j"]
    map_nth2_replicate [OF assms(1,2), of "\<lambda>u v. u + v"]
  by simp

lemma stream_triad_uniform:
  assumes "take N b = replicate N y" and "take N c = replicate N z" and "N \<le> length a"
  shows "take N (stream_triad [0..<N] scalar b c a) = replicate N (y + scalar * z)"
  unfolding stream_triad_def
  using take_fold_store [OF assms(3), of "\<lambda>j. b ! j + scalar * c ! j"]
    map_nth2_replicate [OF assms(1,2), of "\<lambda>u v. u + scalar * v"]
  by simp

lemma stream_double_uniform:
  assumes "take N a = replicate N x"
  shows "take N (stream_double [0..<N] a) = replicate N (2 * x)"
proof (rule nth_equalityI)
  have len: "N \<le> length a" using assms by (rule take_replicate_length)
  then show "length (take N (stream_double [0..<N] a)) = length (replicate N (2 * x))"
    by (simp add: stream_double_def fold_store_self_length)
  fix i assume "i < length (take N (stream_double [0..<N] a))"
  then have i: "i < N" by simp
  have "take N a ! i = x" using assms i by simp
  then have ai: "a ! i = x" using i by simp
  have "i < length a" using i len by simp
  from fold_store_self_nth [OF this, of "[0..<N]" "\<lambda>v. 2 * v"]
  have "stream_double [0..<N] a ! i = 2 * x" using i ai by (simp add: stream_double_def)
  then show "take N (stream_double [0..<N] a) ! i = replicate N (2 * x) ! i" using i by simp
qed

lemma copy_step_uniform:
  assumes "uniform_state N s (x, y, z)"
  shows "uniform_state N (copy_step N clk k s) (x, y, x)"
proof -
  have "N \<le> length (arr_c s)" using assms by (auto simp: uniform_state_def intro: take_replicate_length)
  then show ?thesis
    using assms by (simp add: uniform_state_def copy_step_def Let_def stream_copy_uniform)
qed

lemma scale_step_uniform:
  assumes "uniform_state N s (x, y, z)"
  shows "uniform_state N (scale_step N clk scalar k s) (x, scalar * z, z)"
proof -
  have "N \<le> length (arr_b s)" using assms by (auto simp: uniform_state_def intro: take_replicate_length)
  then show ?thesis
    using assms by (simp add: uniform_state_def scale_step_def Let_def stream_scale_uniform)
qed

lemma add_step_uniform:
  assumes "uniform_state N s (x, y, z)"
  shows "uniform_state N (add_step N clk k s) (x, y, x + y)"
proof -
  have "N \<le> length (arr_c s)" using assms by (auto simp: uniform_state_def intro: take_replicate_length)
  then show ?thesis
    using assms by (simp add: uniform_state_def add_step_def Let_def stream_add_uniform)
qed

lemma triad_step_uniform:
  assumes "uniform_state N s (x, y, z)"
  shows "uniform_state N (triad_step N clk scalar k s) (y + scalar * z, y, z)"
proof -
  have "N \<le> length (arr_a s)" using assms by (auto simp: uniform_state_def intro: take_replicate_length)
  then show ?thesis
    using assms by (simp add: uniform_state_def triad_step_def Let_def stream_triad_uniform)
qed

lemma stream_trial_uniform:
  assumes "uniform_state N s v"
  shows "uniform_state N (stream_trial N clk scalar k s) (expected_step scalar v)"
proof -
  obtain x y z where v: "v = (x, y, z)" by (cases v) auto
  have "uniform_state N (copy_step N clk k s) (x, y, x)"
    using assms unfolding v by (rule copy_step_uniform)
  then have "uniform_state N (scale_step N clk scalar k (copy_step N clk k s)) (x, scalar * x, x)"
    by (rule scale_step_uniform)
  then have "uniform_state N (add_step N clk k (scale_step N clk scalar k (copy_step N clk k s)))
      (x, scalar * x, x + scalar * x)"
    by (rule add_step_uniform)
  then have "uniform_state N (stream_trial N clk scalar k s)
      (scalar * x + scalar * (x + scalar * x), scalar * x, x + scalar * x)"
    unfolding stream_trial_def by (rule triad_step_uniform)
  then show ?thesis by (simp add: v expected_step_def Let_def)
qed

lemma stream_loop_Suc:
  "stream_loop N clk scalar (Suc k) s = stream_trial N clk scalar k (stream_loop N clk scalar k s)"
  by (simp add: stream_loop_def)

lemma stream_loop_uniform:
  assumes "uniform_state N s v"
  shows "uniform_state N (stream_loop N clk scalar k s) (fold (\<lambda>k. expected_step scalar) [0..<k] v)"
proof (induction k)
  case 0
  then show ?case using assms by (simp add: stream_loop_def)
next
  case (Suc k)
  then show ?case by (simp add: stream_loop_Suc stream_trial_uniform)
qed

lemma fold_init_triple:
  "fold (\<lambda>j (a, b, c). (a[j := u], b[j := v], c[j := w])) js (a, b, c)
     = (fold (\<lambda>j a. a[j := u]) js a, fold (\<lambda>j b. b[j := v]) js b, fold (\<lambda>j c. c[j := w]) js c)"
  by (induction js arbitrary: a b c) auto

lemma take_fold_const:
  assumes "N \<le> length xs"
  shows "take N (fold (\<lambda>j xs. xs[j := u]) [0..<N] xs) = replicate N u"
  using take_fold_store [OF assms, of "\<lambda>j. u"] by (simp add: map_replicate_const)

lemma stream_init_eq:
  "stream_init cfg = (a, b, c) \<Longrightarrow>
     take (STREAM_ARRAY_SIZE cfg) a = replicate (STREAM_ARRAY_SIZE cfg) 1
   \<and> take (STREAM_ARRAY_SIZE cfg) b = replicate (STREAM_ARRAY_SIZE cfg) 2
   \<and> take (STREAM_ARRAY_SIZE cfg) c = replicate (STREAM_ARRAY_SIZE cfg) 0"
  by (auto simp: stream_init_def Let_def fold_init_triple take_fold_const)

lemma stream_start_uniform: "uniform_state (STREAM_ARRAY_SIZE cfg) (stream_start cfg p) (2, 2, 0)"
proof -
  obtain a b c where i: "stream_init cfg = (a, b, c)" by (cases "stream_init cfg") auto
  from stream_init_eq [OF i] stream_double_uniform [of "STREAM_ARRAY_SIZE cfg" a 1]
  show ?thesis by (simp add: uniform_state_def stream_start_def i)
qed

text \<open>
  Claim C10. From the initialisation \<open>a[j] = 1\<close>, \<open>b[j] = 2\<close>, \<open>c[j] = 0\<close> each of the three
  arrays stays elementwise constant over its first \<^verbatim>\<open>STREAM_ARRAY_SIZE\<close> elements: after
  the doubling of \<^verbatim>\<open>a\<close>, at the start of every trial \<open>k\<close>, after its Copy, its Scale, its
  Add and its Triad, and when the main loop has ended. The common values are those of the
  scalars \<^verbatim>\<open>aj\<close>, \<^verbatim>\<open>bj\<close>, \<^verbatim>\<open>cj\<close> of \<^verbatim>\<open>checkSTREAMresults\<close> after the same number of
  steps.
\<close>

theorem stream_arrays_stay_uniform:
  assumes "k < NTIMES cfg"
  shows "uniform_state (STREAM_ARRAY_SIZE cfg)
           \<lparr>arr_a = fst (stream_init cfg), arr_b = fst (snd (stream_init cfg)),
            arr_c = snd (snd (stream_init cfg)), clock_calls = 0, times = [], events = []\<rparr>
           (1, 2, 0)
       \<and> uniform_state (STREAM_ARRAY_SIZE cfg) (stream_start cfg p) (2, 2, 0)
       \<and> uniform_state (STREAM_ARRAY_SIZE cfg)
           (stream_loop (STREAM_ARRAY_SIZE cfg) clk 3 k (stream_start cfg p))
           (expected_values k)
       \<and> uniform_state (STREAM_ARRAY_SIZE cfg)
           (copy_step (STREAM_ARRAY_SIZE cfg) clk k
             (stream_loop (STREAM_ARRAY_SIZE cfg) clk 3 k (stream_start cfg p)))
           (fst (expected_values k), fst (snd (expected_values k)), fst (expected_values k))
       \<and> uniform_state (STREAM_ARRAY_SIZE cfg)
           (scale_step (STREAM_ARRAY_SIZE cfg) clk 3 k
             (copy_step (STREAM_ARRAY_SIZE cfg) clk k
               (stream_loop (STREAM_ARRAY_SIZE cfg) clk 3 k (stream_start cfg p))))
           (fst (expected_values k), 3 * fst (expected_values k), fst (expected_values k))
       \<and> uniform_state (STREAM_ARRAY_SIZE cfg)
           (add_step (STREAM_ARRAY_SIZE cfg) clk k
             (scale_step (STREAM_ARRAY_SIZE cfg) clk 3 k
               (copy_step (STREAM_ARRAY_SIZE cfg) clk k
                 (stream_loop (STREAM_ARRAY_SIZE cfg) clk 3 k (stream_start cfg p)))))
           (fst (expected_values k), 3 * fst (expected_values k),
            fst (expected_values k) + 3 * fst (expected_values k))
       \<and> uniform_state (STREAM_ARRAY_SIZE cfg)
           (stream_loop (STREAM_ARRAY_SIZE cfg) clk 3 (Suc k) (stream_start cfg p))
           (expected_values (Suc k))
       \<and> uniform_state (STREAM_ARRAY_SIZE cfg)
           (stream_loop (STREAM_ARRAY_SIZE cfg) clk 3 (NTIMES cfg) (stream_start cfg p))
           (expected_values (NTIMES cfg))"
proof -
  let ?N = "STREAM_ARRAY_SIZE cfg"
  let ?s = "stream_loop ?N clk 3 k (stream_start cfg p)"
  obtain aj bj cj where e: "expected_values k = (aj, bj, cj)"
    by (cases "expected_values k") auto
  have i: "uniform_state ?N
           \<lparr>arr_a = fst (stream_init cfg), arr_b = fst (snd (stream_init cfg)),
            arr_c = snd (snd (stream_init cfg)), clock_calls = 0, times = [], events = []\<rparr>
           (1, 2, 0)"
    using stream_init_eq [of cfg "fst (stream_init cfg)" "fst (snd (stream_init cfg))"
        "snd (snd (stream_init cfg))"]
    by (simp add: uniform_state_def)
  have all: "uniform_state ?N (stream_loop ?N clk 3 m (stream_start cfg p)) (expected_values m)" for m
    unfolding expected_values_def
    using stream_loop_uniform [OF stream_start_uniform, where clk = clk and scalar = 3 and k = m] by simp
  have s: "uniform_state ?N ?s (aj, bj, cj)" using all [of k] by (simp add: e)
  have c: "uniform_state ?N (copy_step ?N clk k ?s) (aj, bj, aj)"
    using s by (rule copy_step_uniform)
  have sc: "uniform_state ?N (scale_step ?N clk 3 k (copy_step ?N clk k ?s)) (aj, 3 * aj, aj)"
    using c by (rule scale_step_uniform)
  have ad: "uniform_state ?N (add_step ?N clk k (scale_step ?N clk 3 k (copy_step ?N clk k ?s)))
      (aj, 3 * aj, aj + 3 * aj)"
    using sc by (rule add_step_uniform)
  show ?thesis
    using i stream_start_uniform [of cfg p] s c sc ad all [of "Suc k"] all [of "NTIMES cfg"]
    by (simp add: e)
qed

lemma stream_start_example: "stream_start \<lparr>STREAM_ARRAY_SIZE = 3, NTIMES = 2, OFFSET = 1, sizeof_STREAM_TYPE = 8\<rparr> 0
  = \<lparr>arr_a = [2, 2, 2, 0], arr_b = [2, 2, 2, 0], arr_c = [0, 0, 0, 0], clock_calls = 2,
     times = [[0, 0], [0, 0], [0, 0], [0, 0]], events = [Tick, Ran ''Double'' 0, Tick]\<rparr>"
  by (simp add: stream_start_def stream_init_def stream_double_def upt_rec numeral_eq_Suc)

lemma stream_loop_example: "arr_a (stream_loop 3 (\<lambda>n. real n) 3 2
    (stream_start \<lparr>STREAM_ARRAY_SIZE = 3, NTIMES = 2, OFFSET = 1, sizeof_STREAM_TYPE = 8\<rparr> 0))
   = [450, 450, 450, 0]"
  unfolding stream_start_example
  by (simp add: stream_loop_def stream_trial_def copy_step_def scale_step_def add_step_def triad_step_def
      stream_copy_def stream_scale_def stream_add_def stream_triad_def set_time_def upt_rec)

theorem stream_arrays_stay_uniform_witness:
  "(1::nat) < NTIMES \<lparr>STREAM_ARRAY_SIZE = 3, NTIMES = 2, OFFSET = 1, sizeof_STREAM_TYPE = 8\<rparr>
   \<and> uniform_state 3
        (stream_loop 3 (\<lambda>n. real n) 3 1
          (stream_start \<lparr>STREAM_ARRAY_SIZE = 3, NTIMES = 2, OFFSET = 1, sizeof_STREAM_TYPE = 8\<rparr> 0))
        (30, 6, 8)
   \<and> uniform_state 3
        (stream_loop 3 (\<lambda>n. real n) 3 2
          (stream_start \<lparr>STREAM_ARRAY_SIZE = 3, NTIMES = 2, OFFSET = 1, sizeof_STREAM_TYPE = 8\<rparr> 0))
        (450, 90, 120)
   \<and> arr_a (stream_loop 3 (\<lambda>n. real n) 3 2
        (stream_start \<lparr>STREAM_ARRAY_SIZE = 3, NTIMES = 2, OFFSET = 1, sizeof_STREAM_TYPE = 8\<rparr> 0))
       = [450, 450, 450, 0]"
proof -
  have k: "(1::nat) < NTIMES \<lparr>STREAM_ARRAY_SIZE = 3, NTIMES = 2, OFFSET = 1, sizeof_STREAM_TYPE = 8\<rparr>"
    by simp
  have e1: "expected_values (Suc 0) = (30, 6, 8)"
    by (simp add: expected_values_def expected_step_def)
  have e2: "expected_values 2 = (450, 90, 120)"
    by (simp add: expected_values_def expected_step_def upt_rec)
  from stream_arrays_stay_uniform [OF k, of 0 "\<lambda>n. real n"] k stream_loop_example show ?thesis
    by (simp add: e1 e2)
qed

subsection \<open>The loops of stream.c under a schedule\<close>

text \<open>
  stream.c marks its loops as parallel when it is compiled with OpenMP. The iterations of
  such a loop store to distinct elements and read nothing another iteration writes, so
  every schedule leaves the arrays the loop in index order leaves; \<^verbatim>\<open>main\<close> is modelled
  with the loops in index order.
\<close>

lemma fold_store_schedule:
  assumes "set js = {0..<N}"
  shows "fold (\<lambda>j xs. xs[j := w j]) js xs = fold (\<lambda>j xs. xs[j := w j]) [0..<N] xs"
proof (rule nth_equalityI)
  show "length (fold (\<lambda>j xs. xs[j := w j]) js xs) = length (fold (\<lambda>j xs. xs[j := w j]) [0..<N] xs)"
    using fold_store_length [where g = "\<lambda>j. j" and v = w] by simp
next
  fix i assume "i < length (fold (\<lambda>j xs. xs[j := w j]) js xs)"
  then have i: "i < length xs"
    using fold_store_length [where g = "\<lambda>j. j" and v = w and ps = js and C = xs] by simp
  have "fold (\<lambda>j xs. xs[j := w j]) ps xs ! i = (if i \<in> set ps then w i else xs ! i)" for ps
    using fold_store_nth [where g = "\<lambda>j. j" and v = w and w = w and ps = ps, OF i] by simp
  then show "fold (\<lambda>j xs. xs[j := w j]) js xs ! i = fold (\<lambda>j xs. xs[j := w j]) [0..<N] xs ! i"
    using assms by simp
qed

lemma fold_store_self_schedule:
  assumes "set js = {0..<N}" and "distinct js"
  shows "fold (\<lambda>j xs. xs[j := f (xs ! j)]) js xs = fold (\<lambda>j xs. xs[j := f (xs ! j)]) [0..<N] xs"
proof (rule nth_equalityI)
  show "length (fold (\<lambda>j xs. xs[j := f (xs ! j)]) js xs)
      = length (fold (\<lambda>j xs. xs[j := f (xs ! j)]) [0..<N] xs)"
    by (simp add: fold_store_self_length)
next
  fix i assume "i < length (fold (\<lambda>j xs. xs[j := f (xs ! j)]) js xs)"
  then have i: "i < length xs" by (simp add: fold_store_self_length)
  show "fold (\<lambda>j xs. xs[j := f (xs ! j)]) js xs ! i
      = fold (\<lambda>j xs. xs[j := f (xs ! j)]) [0..<N] xs ! i"
    using fold_store_self_nth [OF i assms(2), of f] fold_store_self_nth [OF i, of "[0..<N]" f] assms(1)
    by simp
qed

lemma stream_kernels_schedule:
  assumes "row_schedule N js"
  shows "stream_copy js a c = stream_copy [0..<N] a c"
    and "stream_scale js scalar c b = stream_scale [0..<N] scalar c b"
    and "stream_add js a b c = stream_add [0..<N] a b c"
    and "stream_triad js scalar b c a = stream_triad [0..<N] scalar b c a"
    and "stream_double js a = stream_double [0..<N] a"
    and "vector_add_parallel js a b c N = vector_add_serial a b c N"
proof -
  have s: "set js = {0..<N}" and d: "distinct js" using assms by (simp_all add: row_schedule_def)
  show "stream_copy js a c = stream_copy [0..<N] a c"
    unfolding stream_copy_def using s by (rule fold_store_schedule)
  show "stream_scale js scalar c b = stream_scale [0..<N] scalar c b"
    unfolding stream_scale_def using s by (rule fold_store_schedule)
  show "stream_add js a b c = stream_add [0..<N] a b c"
    unfolding stream_add_def using s by (rule fold_store_schedule)
  show "stream_triad js scalar b c a = stream_triad [0..<N] scalar b c a"
    unfolding stream_triad_def using s by (rule fold_store_schedule)
  show "stream_double js a = stream_double [0..<N] a"
    unfolding stream_double_def using s d by (rule fold_store_self_schedule)
  show "vector_add_parallel js a b c N = vector_add_serial a b c N"
    unfolding vector_add_parallel_def vector_add_serial_def using s by (rule fold_store_schedule)
qed

subsection \<open>The trials of the main loop\<close>

lemma fold_store_upt_nth:
  assumes "j < N" and "N \<le> length xs"
  shows "fold (\<lambda>j xs. xs[j := w j]) [0..<N] xs ! j = w j"
proof -
  have "j < length xs" using assms by simp
  from fold_store_nth [where g = "\<lambda>j. j" and v = w and w = w and ps = "[0..<N]", OF this]
  show ?thesis using assms(1) by simp
qed

lemma fold_store_upt_length: "length (fold (\<lambda>j xs. xs[j := w j]) js xs) = length xs"
  using fold_store_length [where g = "\<lambda>j. j" and v = w] by simp

lemma copy_step_fields:
  "arr_a (copy_step N clk k s) = arr_a s" "arr_b (copy_step N clk k s) = arr_b s"
  "length (arr_c (copy_step N clk k s)) = length (arr_c s)"
  "events (copy_step N clk k s) = events s @ [Tick, Ran ''Copy'' k, Tick]"
  by (simp_all add: copy_step_def Let_def stream_copy_def fold_store_upt_length)

lemma scale_step_fields:
  "arr_a (scale_step N clk scalar k s) = arr_a s" "arr_c (scale_step N clk scalar k s) = arr_c s"
  "length (arr_b (scale_step N clk scalar k s)) = length (arr_b s)"
  "events (scale_step N clk scalar k s) = events s @ [Tick, Ran ''Scale'' k, Tick]"
  by (simp_all add: scale_step_def Let_def stream_scale_def fold_store_upt_length)

lemma add_step_fields:
  "arr_a (add_step N clk k s) = arr_a s" "arr_b (add_step N clk k s) = arr_b s"
  "length (arr_c (add_step N clk k s)) = length (arr_c s)"
  "events (add_step N clk k s) = events s @ [Tick, Ran ''Add'' k, Tick]"
  by (simp_all add: add_step_def Let_def stream_add_def fold_store_upt_length)

lemma triad_step_fields:
  "arr_b (triad_step N clk scalar k s) = arr_b s" "arr_c (triad_step N clk scalar k s) = arr_c s"
  "length (arr_a (triad_step N clk scalar k s)) = length (arr_a s)"
  "events (triad_step N clk scalar k s) = events s @ [Tick, Ran ''Triad'' k, Tick]"
  by (simp_all add: triad_step_def Let_def stream_triad_def fold_store_upt_length)

lemmas step_fields = copy_step_fields scale_step_fields add_step_fields triad_step_fields

lemma copy_step_nth:
  "j < N \<Longrightarrow> N \<le> length (arr_c s) \<Longrightarrow> arr_c (copy_step N clk k s) ! j = arr_a s ! j"
  by (simp add: copy_step_def Let_def stream_copy_def fold_store_upt_nth)

lemma scale_step_nth:
  "j < N \<Longrightarrow> N \<le> length (arr_b s) \<Longrightarrow>
     arr_b (scale_step N clk scalar k s) ! j = scalar * arr_c s ! j"
  by (simp add: scale_step_def Let_def stream_scale_def fold_store_upt_nth)

lemma add_step_nth:
  "j < N \<Longrightarrow> N \<le> length (arr_c s) \<Longrightarrow>
     arr_c (add_step N clk k s) ! j = arr_a s ! j + arr_b s ! j"
  by (simp add: add_step_def Let_def stream_add_def fold_store_upt_nth)

lemma triad_step_nth:
  "j < N \<Longrightarrow> N \<le> length (arr_a s) \<Longrightarrow>
     arr_a (triad_step N clk scalar k s) ! j = arr_b s ! j + scalar * arr_c s ! j"
  by (simp add: triad_step_def Let_def stream_triad_def fold_store_upt_nth)

lemma stream_trial_lengths:
  "length (arr_a (stream_trial N clk scalar k s)) = length (arr_a s)"
  "length (arr_b (stream_trial N clk scalar k s)) = length (arr_b s)"
  "length (arr_c (stream_trial N clk scalar k s)) = length (arr_c s)"
  by (simp_all add: stream_trial_def step_fields)

lemma stream_loop_lengths:
  "length (arr_a (stream_loop N clk scalar k s)) = length (arr_a s)
   \<and> length (arr_b (stream_loop N clk scalar k s)) = length (arr_b s)
   \<and> length (arr_c (stream_loop N clk scalar k s)) = length (arr_c s)"
  by (induction k) (simp_all add: stream_loop_Suc stream_trial_lengths, simp add: stream_loop_def)

lemma stream_trial_events:
  "events (stream_trial N clk scalar k s)
     = events s @ [Tick, Ran ''Copy'' k, Tick, Tick, Ran ''Scale'' k, Tick,
                   Tick, Ran ''Add'' k, Tick, Tick, Ran ''Triad'' k, Tick]"
  by (simp add: stream_trial_def step_fields)

lemma stream_loop_kernels:
  "filter is_Ran (events (stream_loop N clk scalar ntimes s))
     = filter is_Ran (events s) @ concat (map trial_kernels [0..<ntimes])"
  by (induction ntimes)
    (simp_all add: stream_loop_Suc stream_trial_events trial_kernels_def, simp add: stream_loop_def)

lemma stream_loop_ticks:
  "length (filter (\<lambda>e. e = Tick) (events (stream_loop N clk scalar ntimes s)))
     = length (filter (\<lambda>e. e = Tick) (events s)) + 8 * ntimes"
  by (induction ntimes)
    (simp_all add: stream_loop_Suc stream_trial_events, simp add: stream_loop_def)

text \<open>
  Claim C6. The kernel executions of the main loop are, for every trial in turn, Copy,
  Scale, Add and Triad. Within trial \<open>k\<close> Copy stores \<open>a[j]\<close> in \<open>c[j]\<close>, Scale stores
  \<open>scalar * c[j]\<close> in \<open>b[j]\<close>, Add stores \<open>a[j] + b[j]\<close> in \<open>c[j]\<close> and Triad stores
  \<open>b[j] + scalar * c[j]\<close> in \<open>a[j]\<close>, each on the arrays its predecessor left. The state
  in which trial \<open>k + 1\<close> begins is the state the Triad of trial \<open>k\<close> left, so the Copy of
  trial \<open>k + 1\<close> reads the array \<open>a\<close> that this Triad wrote, and the rest of the loop
  runs on that one triple of arrays.
\<close>

theorem stream_trials_form_a_chain:
  assumes "Suc k < ntimes" and "j < N"
    and "N \<le> length (arr_a s0)" and "N \<le> length (arr_b s0)" and "N \<le> length (arr_c s0)"
  shows "filter is_Ran (events (stream_loop N clk scalar ntimes s0))
           = filter is_Ran (events s0) @ concat (map trial_kernels [0..<ntimes])
       \<and> arr_c (after_copy N clk scalar k s0) ! j = arr_a (before_trial N clk scalar k s0) ! j
       \<and> arr_b (after_scale N clk scalar k s0) ! j
           = scalar * arr_c (after_copy N clk scalar k s0) ! j
       \<and> arr_c (after_add N clk scalar k s0) ! j
           = arr_a (after_scale N clk scalar k s0) ! j + arr_b (after_scale N clk scalar k s0) ! j
       \<and> arr_a (after_triad N clk scalar k s0) ! j
           = arr_b (after_add N clk scalar k s0) ! j
             + scalar * arr_c (after_add N clk scalar k s0) ! j
       \<and> before_trial N clk scalar (Suc k) s0 = after_triad N clk scalar k s0
       \<and> arr_c (after_copy N clk scalar (Suc k) s0) ! j = arr_a (after_triad N clk scalar k s0) ! j
       \<and> stream_loop N clk scalar ntimes s0
           = fold (stream_trial N clk scalar) [Suc k..<ntimes] (after_triad N clk scalar k s0)"
proof -
  let ?s = "before_trial N clk scalar k s0"
  have len: "N \<le> length (arr_a ?s)" "N \<le> length (arr_b ?s)" "N \<le> length (arr_c ?s)"
    using assms(3-5) stream_loop_lengths [of N clk scalar k s0] by (simp_all add: before_trial_def)
  have chain: "before_trial N clk scalar (Suc k) s0 = after_triad N clk scalar k s0"
    by (simp add: before_trial_def after_triad_def after_add_def after_scale_def after_copy_def
        stream_loop_Suc stream_trial_def)
  have len': "N \<le> length (arr_c (after_triad N clk scalar k s0))"
    using len(3)
    by (simp add: after_triad_def after_add_def after_scale_def after_copy_def step_fields)
  have split: "[0..<ntimes] = [0..<Suc k] @ [Suc k..<ntimes]"
    using assms(1) by (metis less_imp_le_nat upt_add_eq_append zero_le le_add_diff_inverse)
  have rest: "stream_loop N clk scalar ntimes s0
           = fold (stream_trial N clk scalar) [Suc k..<ntimes] (after_triad N clk scalar k s0)"
    unfolding chain [symmetric] before_trial_def stream_loop_def
    by (subst split) simp
  have 1: "arr_c (after_copy N clk scalar k s0) ! j = arr_a ?s ! j"
    using assms(2) len(3) by (simp add: after_copy_def copy_step_nth)
  have 2: "arr_b (after_scale N clk scalar k s0) ! j = scalar * arr_c (after_copy N clk scalar k s0) ! j"
    using assms(2) len(2) by (simp add: after_scale_def after_copy_def scale_step_nth step_fields)
  have 3: "arr_c (after_add N clk scalar k s0) ! j
           = arr_a (after_scale N clk scalar k s0) ! j + arr_b (after_scale N clk scalar k s0) ! j"
    using assms(2) len(3)
    by (simp add: after_add_def after_scale_def after_copy_def add_step_nth step_fields)
  have 4: "arr_a (after_triad N clk scalar k s0) ! j
           = arr_b (after_add N clk scalar k s0) ! j
             + scalar * arr_c (after_add N clk scalar k s0) ! j"
    using assms(2) len(1)
    by (simp add: after_triad_def after_add_def after_scale_def after_copy_def triad_step_nth
        step_fields)
  have 5: "arr_c (after_copy N clk scalar (Suc k) s0) ! j = arr_a (after_triad N clk scalar k s0) ! j"
    using assms(2) len' by (simp add: after_copy_def [of _ _ _ "Suc k"] chain copy_step_nth)
  show ?thesis
    using stream_loop_kernels [of N clk scalar ntimes s0] 1 2 3 4 5 chain rest by simp
qed

lemma chain_example:
  "arr_a (after_triad 2 (\<lambda>n. real n) 3 0
      \<lparr>arr_a = [2, 4], arr_b = [1, 1], arr_c = [0, 0], clock_calls = 0,
       times = [[0, 0], [0, 0], [0, 0], [0, 0]], events = []\<rparr>) = [30, 60]"
  by (simp add: after_triad_def after_add_def after_scale_def after_copy_def before_trial_def
      stream_loop_def copy_step_def scale_step_def add_step_def triad_step_def
      stream_copy_def stream_scale_def stream_add_def stream_triad_def set_time_def upt_rec)

theorem stream_trials_form_a_chain_witness:
  "arr_c (after_copy 2 (\<lambda>n. real n) 3 (Suc 0)
      \<lparr>arr_a = [2, 4], arr_b = [1, 1], arr_c = [0, 0], clock_calls = 0,
       times = [[0, 0], [0, 0], [0, 0], [0, 0]], events = []\<rparr>) ! 1 = 60
   \<and> filter is_Ran (events (stream_loop 2 (\<lambda>n. real n) 3 2
      \<lparr>arr_a = [2, 4], arr_b = [1, 1], arr_c = [0, 0], clock_calls = 0,
       times = [[0, 0], [0, 0], [0, 0], [0, 0]], events = []\<rparr>))
     = [Ran ''Copy'' 0, Ran ''Scale'' 0, Ran ''Add'' 0, Ran ''Triad'' 0,
        Ran ''Copy'' 1, Ran ''Scale'' 1, Ran ''Add'' 1, Ran ''Triad'' 1]"
proof -
  let ?s0 = "\<lparr>arr_a = [2, 4], arr_b = [1, 1], arr_c = [0, 0], clock_calls = 0,
       times = [[0, 0], [0, 0], [0, 0], [0, 0]], events = []\<rparr>"
  have h: "Suc 0 < (2::nat)" "(1::nat) < 2" "2 \<le> length (arr_a ?s0)" "2 \<le> length (arr_b ?s0)"
    "2 \<le> length (arr_c ?s0)"
    by simp_all
  note t = stream_trials_form_a_chain [OF h, of "\<lambda>n. real n" 3]
  note order = t [THEN conjunct1]
  note chain = t [THEN conjunct2, THEN conjunct2, THEN conjunct2, THEN conjunct2, THEN conjunct2,
      THEN conjunct2, THEN conjunct1]
  have "arr_c (after_copy 2 (\<lambda>n. real n) 3 (Suc 0) ?s0) ! 1 = 60"
    unfolding chain chain_example by simp
  moreover have "filter is_Ran (events (stream_loop 2 (\<lambda>n. real n) 3 2 ?s0))
     = [Ran ''Copy'' 0, Ran ''Scale'' 0, Ran ''Add'' 0, Ran ''Triad'' 0,
        Ran ''Copy'' 1, Ran ''Scale'' 1, Ran ''Add'' 1, Ran ''Triad'' 1]"
    unfolding order by (simp add: trial_kernels_def upt_rec)
  ultimately show ?thesis by simp
qed

subsection \<open>The analytic check of STREAM\<close>

lemma expected_step_3: "expected_step 3 (x, y, z) = (15 * x, 3 * x, 4 * x)"
  by (simp add: expected_step_def Let_def)

lemma fold_expected_step:
  "fold (\<lambda>k. expected_step 3) [0..<Suc n] (x, y, z) = (15 ^ Suc n * x, 3 * 15 ^ n * x, 4 * 15 ^ n * x)"
  by (induction n) (simp_all add: expected_step_3)

lemma fold_const_funpow: "fold (\<lambda>k. f) [0..<n] v = (f ^^ n) v"
  by (induction n) simp_all

lemma expected_values_closed:
  "0 < n \<Longrightarrow> expected_values n = (2 * 15 ^ n, 6 * 15 ^ (n - 1), 8 * 15 ^ (n - 1))"
  using fold_expected_step [of "n - 1" 2 2 0] by (simp add: expected_values_def)

lemma sum_errors_eq: "sum_errors N xs xj = (\<Sum>j<N. \<bar>xs ! j - xj\<bar>)"
proof -
  have "fold (\<lambda>j SumErr. SumErr + stream_abs (xs ! j - xj)) [0..<N] s = s + (\<Sum>j<N. \<bar>xs ! j - xj\<bar>)"
    for s
    by (induction N) (simp_all add: stream_abs_def abs_real_def)
  then show ?thesis by (simp add: sum_errors_def)
qed

lemma check_array_eq:
  assumes "0 < xj"
  shows "check_array name N xs xj epsilon
    = (if avg_rel_abs_err N xs xj > epsilon
       then (1, [Stdout (''Failed Validation on array '' @ name),
                 Errors_found name (count_errors N xs xj epsilon)])
       else (0, []))"
proof -
  have "0 \<le> (\<Sum>j<N. \<bar>xs ! j - xj\<bar>) / real N / xj"
    using assms by (simp add: sum_nonneg)
  then show ?thesis
    using assms
    by (simp add: check_array_def exceeds_def sum_errors_eq avg_rel_abs_err_def stream_abs_def Let_def)
qed

lemma checkSTREAMresults_err:
  assumes "expected_values (NTIMES cfg) = (aj, bj, cj)" and "0 < aj" and "0 < bj" and "0 < cj"
  shows "fst (checkSTREAMresults cfg a b c)
    = (if avg_rel_abs_err (STREAM_ARRAY_SIZE cfg) a aj > epsilon_of (sizeof_STREAM_TYPE cfg) then 1 else 0)
    + (if avg_rel_abs_err (STREAM_ARRAY_SIZE cfg) b bj > epsilon_of (sizeof_STREAM_TYPE cfg) then 1 else 0)
    + (if avg_rel_abs_err (STREAM_ARRAY_SIZE cfg) c cj > epsilon_of (sizeof_STREAM_TYPE cfg) then 1 else 0)"
  by (simp add: checkSTREAMresults_def assms check_array_eq Let_def)

lemma avg_err_uniform:
  assumes "take N xs = replicate N xj"
  shows "avg_rel_abs_err N xs xj = 0"
proof -
  have "xs ! j = xj" if "j < N" for j
  proof -
    have "take N xs ! j = xj" using assms that by simp
    then show ?thesis using that by simp
  qed
  then show ?thesis by (simp add: avg_rel_abs_err_def)
qed

lemma avg_err_one_off:
  assumes "take N xs = replicate N xj" and "i < N"
  shows "avg_rel_abs_err N (xs[i := xj + d]) xj = \<bar>d\<bar> / real N / xj"
proof -
  have len: "N \<le> length xs"
    using assms(1) by (metis length_replicate length_take min.cobounded1 min_def order_refl)
  have v: "xs ! j = xj" if "j < N" for j
  proof -
    have "take N xs ! j = xj" using assms(1) that by simp
    then show ?thesis using that by simp
  qed
  have "(\<Sum>j<N. \<bar>xs[i := xj + d] ! j - xj\<bar>) = (\<Sum>j<N. if j = i then \<bar>d\<bar> else 0)"
    using len assms(2) v by (intro sum.cong) (auto simp: nth_list_update)
  also have "\<dots> = \<bar>d\<bar>" using assms(2) by simp
  finally show ?thesis by (simp add: avg_rel_abs_err_def)
qed

text \<open>
  Claim C3, as amended. \<^verbatim>\<open>checkSTREAMresults\<close> computes the expected values by applying
  the recurrence Copy (\<open>cj = aj\<close>), Scale (\<open>bj = scalar * cj\<close>), Add (\<open>cj = aj + bj\<close>), Triad
  (\<open>aj = bj + scalar * cj\<close>) exactly \<^verbatim>\<open>NTIMES\<close> times with \<open>scalar = 3\<close>, starting from
  \<open>a = 2\<close>, \<open>b = 2\<close>, \<open>c = 0\<close>: the initial constants 1, 2, 0 with \<open>a\<close> doubled first, as
  \<^verbatim>\<open>main\<close> doubles the array. For \<^verbatim>\<open>NTIMES\<close> \<open>> 0\<close> the values are \<open>2 * 15 ^ NTIMES\<close>,
  \<open>6 * 15 ^ (NTIMES - 1)\<close> and \<open>8 * 15 ^ (NTIMES - 1)\<close>. An array fails iff its average
  relative absolute error exceeds epsilon, which is \<open>1e-6\<close> for an element of 4 bytes and
  \<open>1e-13\<close> for one of 8 bytes. Arrays that hold the expected values pass, and so do the
  arrays the main loop leaves. Arrays with one element off by \<open>d\<close> fail iff \<open>\<bar>d\<bar>\<close>, divided
  by the array size and by the expected value, exceeds epsilon.
\<close>

theorem checkSTREAMresults_behaviour:
  assumes "0 < NTIMES cfg" and "0 < STREAM_ARRAY_SIZE cfg" and "i < STREAM_ARRAY_SIZE cfg"
    and "expected_values (NTIMES cfg) = (aj, bj, cj)"
    and "take (STREAM_ARRAY_SIZE cfg) a0 = replicate (STREAM_ARRAY_SIZE cfg) aj"
    and "take (STREAM_ARRAY_SIZE cfg) b0 = replicate (STREAM_ARRAY_SIZE cfg) bj"
    and "take (STREAM_ARRAY_SIZE cfg) c0 = replicate (STREAM_ARRAY_SIZE cfg) cj"
  shows "expected_values (NTIMES cfg) = (expected_step 3 ^^ NTIMES cfg) (2, 2, 0)
       \<and> aj = 2 * 15 ^ NTIMES cfg \<and> bj = 6 * 15 ^ (NTIMES cfg - 1) \<and> cj = 8 * 15 ^ (NTIMES cfg - 1)
       \<and> epsilon_of 4 = 1 / 10 ^ 6 \<and> epsilon_of 8 = 1 / 10 ^ 13
       \<and> fst (checkSTREAMresults cfg a b c)
           = (if avg_rel_abs_err (STREAM_ARRAY_SIZE cfg) a aj > epsilon_of (sizeof_STREAM_TYPE cfg)
              then 1 else 0)
           + (if avg_rel_abs_err (STREAM_ARRAY_SIZE cfg) b bj > epsilon_of (sizeof_STREAM_TYPE cfg)
              then 1 else 0)
           + (if avg_rel_abs_err (STREAM_ARRAY_SIZE cfg) c cj > epsilon_of (sizeof_STREAM_TYPE cfg)
              then 1 else 0)
       \<and> checkSTREAMresults cfg a0 b0 c0
           = (0, (if sizeof_STREAM_TYPE cfg = 4 \<or> sizeof_STREAM_TYPE cfg = 8 then []
                  else [Stdout ''WEIRD: sizeof(STREAM_TYPE)'']) @ [Stdout ''Solution Validates''])
       \<and> validation_errors (stream_report cfg q
             (stream_loop (STREAM_ARRAY_SIZE cfg) clk 3 (NTIMES cfg) (stream_start cfg p))) = 0
       \<and> fst (checkSTREAMresults cfg (a0[i := aj + d]) b0 c0)
           = (if \<bar>d\<bar> / real (STREAM_ARRAY_SIZE cfg) / aj > epsilon_of (sizeof_STREAM_TYPE cfg)
              then 1 else 0)
       \<and> fst (checkSTREAMresults cfg a0 (b0[i := bj + d]) c0)
           = (if \<bar>d\<bar> / real (STREAM_ARRAY_SIZE cfg) / bj > epsilon_of (sizeof_STREAM_TYPE cfg)
              then 1 else 0)
       \<and> fst (checkSTREAMresults cfg a0 b0 (c0[i := cj + d]))
           = (if \<bar>d\<bar> / real (STREAM_ARRAY_SIZE cfg) / cj > epsilon_of (sizeof_STREAM_TYPE cfg)
              then 1 else 0)"
proof -
  let ?N = "STREAM_ARRAY_SIZE cfg"
  let ?eps = "epsilon_of (sizeof_STREAM_TYPE cfg)"
  have eps: "0 < ?eps" by (simp add: epsilon_of_def)
  have closed: "aj = 2 * 15 ^ NTIMES cfg" "bj = 6 * 15 ^ (NTIMES cfg - 1)"
    "cj = 8 * 15 ^ (NTIMES cfg - 1)"
    using expected_values_closed [OF assms(1)] assms(4) by simp_all
  then have pos: "0 < aj" "0 < bj" "0 < cj" by simp_all
  note err = checkSTREAMresults_err [OF assms(4) pos]
  have rec: "expected_values (NTIMES cfg) = (expected_step 3 ^^ NTIMES cfg) (2, 2, 0)"
    by (simp add: expected_values_def fold_const_funpow)
  have z: "avg_rel_abs_err ?N a0 aj = 0" "avg_rel_abs_err ?N b0 bj = 0" "avg_rel_abs_err ?N c0 cj = 0"
    using assms(5-7) by (simp_all add: avg_err_uniform)
  have ok: "checkSTREAMresults cfg a0 b0 c0
           = (0, (if sizeof_STREAM_TYPE cfg = 4 \<or> sizeof_STREAM_TYPE cfg = 8 then []
                  else [Stdout ''WEIRD: sizeof(STREAM_TYPE)'']) @ [Stdout ''Solution Validates''])"
    using eps by (simp add: checkSTREAMresults_def assms(4) check_array_eq pos z Let_def)
  have run: "uniform_state ?N (stream_loop ?N clk 3 (NTIMES cfg) (stream_start cfg p)) (aj, bj, cj)"
    using stream_loop_uniform [OF stream_start_uniform, where clk = clk and scalar = 3
        and k = "NTIMES cfg" and cfg1 = cfg and p1 = p] assms(4)
    by (simp add: expected_values_def)
  have main: "validation_errors (stream_report cfg q
             (stream_loop ?N clk 3 (NTIMES cfg) (stream_start cfg p))) = 0"
    using run eps
    by (simp add: stream_report_def uniform_state_def checkSTREAMresults_def assms(4)
        check_array_eq pos avg_err_uniform Let_def)
  have pa: "fst (checkSTREAMresults cfg (a0[i := aj + d]) b0 c0)
           = (if \<bar>d\<bar> / real ?N / aj > ?eps then 1 else 0)"
    using eps by (simp add: err z avg_err_one_off [OF assms(5,3)])
  have pb: "fst (checkSTREAMresults cfg a0 (b0[i := bj + d]) c0)
           = (if \<bar>d\<bar> / real ?N / bj > ?eps then 1 else 0)"
    using eps by (simp add: err z avg_err_one_off [OF assms(6,3)])
  have pc: "fst (checkSTREAMresults cfg a0 b0 (c0[i := cj + d]))
           = (if \<bar>d\<bar> / real ?N / cj > ?eps then 1 else 0)"
    using eps by (simp add: err z avg_err_one_off [OF assms(7,3)])
  have e48: "epsilon_of 4 = 1 / 10 ^ 6" "epsilon_of 8 = 1 / 10 ^ 13"
    by (simp_all add: epsilon_of_def)
  show ?thesis
    using rec closed e48 err ok main pa pb pc by simp
qed

theorem checkSTREAMresults_behaviour_witness:
  "checkSTREAMresults \<lparr>STREAM_ARRAY_SIZE = 4, NTIMES = 1, OFFSET = 0, sizeof_STREAM_TYPE = 8\<rparr>
       [30, 30, 30, 30] [6, 6, 6, 6] [8, 8, 8, 8] = (0, [Stdout ''Solution Validates''])
   \<and> fst (checkSTREAMresults \<lparr>STREAM_ARRAY_SIZE = 4, NTIMES = 1, OFFSET = 0, sizeof_STREAM_TYPE = 8\<rparr>
       [30, 30, 31, 30] [6, 6, 6, 6] [8, 8, 8, 8]) = 1
   \<and> fst (checkSTREAMresults \<lparr>STREAM_ARRAY_SIZE = 4, NTIMES = 1, OFFSET = 0, sizeof_STREAM_TYPE = 8\<rparr>
       [30, 30, 30, 30] [6, 6, 6 + 1 / 10 ^ 12, 6] [8, 8, 8, 8]) = 0"
proof -
  let ?cfg = "\<lparr>STREAM_ARRAY_SIZE = 4, NTIMES = 1, OFFSET = 0, sizeof_STREAM_TYPE = 8\<rparr>"
  have h: "0 < NTIMES ?cfg" "0 < STREAM_ARRAY_SIZE ?cfg" "2 < STREAM_ARRAY_SIZE ?cfg"
    "expected_values (NTIMES ?cfg) = (30, 6, 8)"
    "take (STREAM_ARRAY_SIZE ?cfg) [30, 30, 30, 30 :: real] = replicate (STREAM_ARRAY_SIZE ?cfg) 30"
    "take (STREAM_ARRAY_SIZE ?cfg) [6, 6, 6, 6 :: real] = replicate (STREAM_ARRAY_SIZE ?cfg) 6"
    "take (STREAM_ARRAY_SIZE ?cfg) [8, 8, 8, 8 :: real] = replicate (STREAM_ARRAY_SIZE ?cfg) 8"
    by (simp_all add: expected_values_def expected_step_def numeral_eq_Suc)
  note t = checkSTREAMresults_behaviour [OF h]
  note ok = t [THEN conjunct2, THEN conjunct2, THEN conjunct2, THEN conjunct2, THEN conjunct2,
      THEN conjunct2, THEN conjunct2, THEN conjunct1]
  note pa = t [THEN conjunct2, THEN conjunct2, THEN conjunct2, THEN conjunct2, THEN conjunct2,
      THEN conjunct2, THEN conjunct2, THEN conjunct2, THEN conjunct2, THEN conjunct1, of 1]
  note pb = t [THEN conjunct2, THEN conjunct2, THEN conjunct2, THEN conjunct2, THEN conjunct2,
      THEN conjunct2, THEN conjunct2, THEN conjunct2, THEN conjunct2, THEN conjunct2,
      THEN conjunct1, of "1 / 10 ^ 12"]
  show ?thesis using ok pa pb by (simp add: epsilon_of_def)
qed

text \<open>
  The claim as stated fails in two places. The expected value of \<open>a\<close> for \<^verbatim>\<open>NTIMES\<close> \<open>= 10\<close>
  is not what the recurrence gives from \<open>(1, 2, 0)\<close>; and an array of four elements, one of
  them off by a relative error of \<open>2e-13\<close>, more than epsilon, passes, because the error
  is averaged over the array.
\<close>

theorem checkSTREAMresults_counterexample:
  "fst (expected_values 10) = 1153300781250
   \<and> fst ((expected_step 3 ^^ 10) (1, 2, 0)) = 576650390625
   \<and> fst (checkSTREAMresults \<lparr>STREAM_ARRAY_SIZE = 4, NTIMES = 1, OFFSET = 0, sizeof_STREAM_TYPE = 8\<rparr>
       [30 + 30 * (2 / 10 ^ 13), 30, 30, 30] [6, 6, 6, 6] [8, 8, 8, 8]) = 0
   \<and> \<bar>(30 + 30 * (2 / 10 ^ 13)) / 30 - 1\<bar> > epsilon_of 8"
proof -
  have 1: "fst (expected_values 10) = 1153300781250"
    by (simp add: expected_values_def expected_step_def upt_rec)
  have 2: "fst ((expected_step 3 ^^ 10) (1, 2, 0)) = 576650390625"
    by (simp add: expected_step_def numeral_eq_Suc)
  have 3: "fst (checkSTREAMresults \<lparr>STREAM_ARRAY_SIZE = 4, NTIMES = 1, OFFSET = 0, sizeof_STREAM_TYPE = 8\<rparr>
       [30 + 30 * (2 / 10 ^ 13), 30, 30, 30] [6, 6, 6, 6] [8, 8, 8, 8]) = 0"
    by (simp add: checkSTREAMresults_def expected_values_def expected_step_def check_array_def
        sum_errors_def exceeds_def stream_abs_def epsilon_of_def upt_rec)
  have 4: "\<bar>(30 + 30 * (2 / 10 ^ 13)) / 30 - 1\<bar> > epsilon_of 8"
    by (simp add: epsilon_of_def)
  show ?thesis using 1 2 3 4 by simp
qed

subsection \<open>The aggregation of the timings\<close>

lemma fold_min_Min:
  "fold (\<lambda>k m. if m < f k then m else f k) ks (m0::'a::linorder) = Min (insert m0 (f ` set ks))"
proof (induction ks arbitrary: m0)
  case Nil
  then show ?case by simp
next
  case (Cons k ks)
  have "Min (insert (if m0 < f k then m0 else f k) (f ` set ks)) = Min (insert m0 (insert (f k) (f ` set ks)))"
  proof (cases "f ` set ks = {}")
    case True
    then show ?thesis by (auto simp: min_def)
  next
    case False
    then show ?thesis by (auto simp: min_def)
  qed
  then show ?case by (simp add: Cons.IH)
qed















subsection \<open>The granularity of the clock\<close>

lemma spin_now: "\<not> clk p - t1 < 1 / 10 ^ 6 \<Longrightarrow> spin clk t1 p = Some (clk p, p + 1)"
  by (subst spin.simps) simp

lemma spin_later: "clk p - t1 < 1 / 10 ^ 6 \<Longrightarrow> spin clk t1 p = spin clk t1 (p + 1)"
  by (subst spin.simps) simp

lemma spin_first:
  assumes "p \<le> q" and "\<not> clk q - t1 < 1 / 10 ^ 6"
    and "\<forall>r. p \<le> r \<and> r < q \<longrightarrow> clk r - t1 < 1 / 10 ^ 6"
  shows "spin clk t1 p = Some (clk q, q + 1)"
  using assms
proof (induction "q - p" arbitrary: p)
  case 0
  then have "p = q" by simp
  then show ?case using "0.prems"(2) by (simp add: spin_now)
next
  case (Suc d)
  then have lt: "p < q" by simp
  then have "clk p - t1 < 1 / 10 ^ 6" using Suc.prems(3) by simp
  then have "spin clk t1 p = spin clk t1 (p + 1)" by (rule spin_later)
  moreover have "spin clk t1 (p + 1) = Some (clk q, q + 1)"
  proof (rule Suc.hyps(1))
    show "d = q - (p + 1)" using Suc.hyps(2) by simp
    show "p + 1 \<le> q" using lt by simp
    show "\<not> clk q - t1 < 1 / 10 ^ 6" by (rule Suc.prems(2))
    show "\<forall>r. p + 1 \<le> r \<and> r < q \<longrightarrow> clk r - t1 < 1 / 10 ^ 6" using Suc.prems(3) by simp
  qed
  ultimately show ?case by simp
qed

lemma spin_total:
  assumes "\<exists>q\<ge>p. \<not> clk q - t1 < 1 / 10 ^ 6"
  shows "\<exists>q\<ge>p. spin clk t1 p = Some (clk q, q + 1) \<and> \<not> clk q - t1 < 1 / 10 ^ 6
           \<and> (\<forall>r. p \<le> r \<and> r < q \<longrightarrow> clk r - t1 < 1 / 10 ^ 6)"
proof -
  let ?P = "\<lambda>q. p \<le> q \<and> \<not> clk q - t1 < 1 / 10 ^ 6"
  define q where "q = (LEAST q. ?P q)"
  have ex: "\<exists>q. ?P q" using assms by blast
  have q: "?P q" unfolding q_def using ex by (rule LeastI_ex)
  have least: "\<forall>r. p \<le> r \<and> r < q \<longrightarrow> clk r - t1 < 1 / 10 ^ 6"
  proof (intro allI impI)
    fix r assume r: "p \<le> r \<and> r < q"
    then have "\<not> ?P r" unfolding q_def using not_less_Least by blast
    then show "clk r - t1 < 1 / 10 ^ 6" using r by simp
  qed
  have "spin clk t1 p = Some (clk q, q + 1)"
    using q least by (intro spin_first) simp_all
  then show ?thesis using q least by blast
qed

lemma collect_step_advances:
  assumes "clock_advances clk" and "n < length tf"
  shows "\<exists>t p'. collect_step clk n (Some (tf, p)) = Some (tf[n := t], p') \<and> sampled clk t"
proof -
  obtain q0 where q0: "q0 > p" "1 / 10 ^ 6 \<le> clk q0 - clk p"
    using assms(1) unfolding clock_advances_def by blast
  then have "\<exists>q\<ge>p + 1. \<not> clk q - clk p < 1 / 10 ^ 6"
    by (intro exI [of _ q0]) simp
  from spin_total [OF this] obtain q where q: "p + 1 \<le> q"
    "spin clk (clk p) (p + 1) = Some (clk q, q + 1)" "\<not> clk q - clk p < 1 / 10 ^ 6"
    "\<forall>r. p + 1 \<le> r \<and> r < q \<longrightarrow> clk r - clk p < 1 / 10 ^ 6"
    by blast
  have "sampled clk (clk q)"
    unfolding sampled_def using q(1,3,4) by (intro exI [of _ p] exI [of _ q]) auto
  moreover have "collect_step clk n (Some (tf, p)) = Some (tf[n := clk q], q + 1)"
    using q(2) by (simp add: collect_step_def)
  ultimately show ?thesis by blast
qed

lemma collect_fold:
  assumes "clock_advances clk" and "n \<le> length tf0"
  shows "\<exists>tf p'. fold (collect_step clk) [0..<n] (Some (tf0, p)) = Some (tf, p')
           \<and> length tf = length tf0 \<and> (\<forall>i<n. sampled clk (tf ! i))"
  using assms(2)
proof (induction n)
  case 0
  then show ?case by simp
next
  case (Suc n)
  then obtain tf p' where IH: "fold (collect_step clk) [0..<n] (Some (tf0, p)) = Some (tf, p')"
    "length tf = length tf0" "\<forall>i<n. sampled clk (tf ! i)"
    by auto
  have "n < length tf" using Suc.prems IH(2) by simp
  from collect_step_advances [OF assms(1) this, of p'] obtain t p''
    where st: "collect_step clk n (Some (tf, p')) = Some (tf[n := t], p'')" "sampled clk t"
    by blast
  have "fold (collect_step clk) [0..<Suc n] (Some (tf0, p)) = Some (tf[n := t], p'')"
    by (simp add: IH(1) st(1))
  moreover have "length (tf[n := t]) = length tf0" using IH(2) by simp
  moreover have "\<forall>i<Suc n. sampled clk (tf[n := t] ! i)"
    using IH(3) st(2) \<open>n < length tf\<close> by (auto simp: nth_list_update less_Suc_eq)
  ultimately show ?case by blast
qed

lemma toward_zero_range:
  assumes "in_int_range x"
  shows "INT_MIN \<le> toward_zero x \<and> toward_zero x \<le> INT_MAX"
proof (cases "0 \<le> x")
  case True
  have "x < 2147483648" using assms by (simp add: in_int_range_def INT_MAX_def)
  then have "\<lfloor>x\<rfloor> < 2147483648" by (simp add: floor_less_iff)
  moreover have "0 \<le> \<lfloor>x\<rfloor>" using True by simp
  ultimately show ?thesis using True by (simp add: toward_zero_def INT_MIN_def INT_MAX_def)
next
  case False
  have "- 2147483649 < x" using assms by (simp add: in_int_range_def INT_MIN_def)
  then have "- 2147483649 < \<lceil>x\<rceil>" by (simp add: less_ceiling_iff)
  moreover have "\<lceil>x\<rceil> \<le> 0" using False by (simp add: ceiling_le_iff)
  ultimately show ?thesis using False by (simp add: toward_zero_def INT_MIN_def INT_MAX_def)
qed

lemma as_int_range: "INT_MIN \<le> as_int v \<and> as_int v \<le> INT_MAX"
proof -
  have "0 \<le> (v - INT_MIN) mod 2 ^ 32" by simp
  moreover have "(v - INT_MIN) mod 2 ^ 32 < 2 ^ 32" by simp
  ultimately show ?thesis by (simp add: as_int_def INT_MIN_def INT_MAX_def)
qed

lemma c_int_range: "INT_MIN \<le> c_int pf x \<and> c_int pf x \<le> INT_MAX"
  using toward_zero_range [of x] as_int_range [of "int_of_large pf x"]
  by (simp add: c_int_def)

lemma min_delta_Min:
  "min_delta pf tf = Min (insert 1000000
      ((\<lambda>i. c_int pf (micro_delta pf (tf ! i) (tf ! (i - 1)))) ` {1..<checktick_M}))"
proof -
  have "min_delta pf tf
      = fold (\<lambda>i m. if m < c_int pf (micro_delta pf (tf ! i) (tf ! (i - 1))) then m
                     else c_int pf (micro_delta pf (tf ! i) (tf ! (i - 1))))
          [1..<checktick_M] 1000000"
    unfolding min_delta_def Let_def by (rule refl)
  then show ?thesis by (simp only: fold_min_Min set_upt)
qed

lemma min_delta_range: "INT_MIN \<le> min_delta pf tf \<and> min_delta pf tf \<le> 1000000"
proof -
  let ?S = "insert 1000000
      ((\<lambda>i. c_int pf (micro_delta pf (tf ! i) (tf ! (i - 1)))) ` {1..<checktick_M})"
  have fin: "finite ?S" by simp
  have "\<forall>v\<in>?S. INT_MIN \<le> v" using c_int_range [of pf] by (auto simp: INT_MIN_def)
  then have "INT_MIN \<le> Min ?S" using fin by simp
  moreover have "Min ?S \<le> 1000000" using fin by (intro Min_le) simp_all
  ultimately show ?thesis by (simp only: min_delta_Min)
qed

lemma min_delta_in_range:
  assumes "\<forall>i\<in>{1..<checktick_M}. in_int_range (micro_delta pf (tf ! i) (tf ! (i - 1)))"
  shows "min_delta pf tf = Min (insert 1000000
      ((\<lambda>i. toward_zero (micro_delta pf (tf ! i) (tf ! (i - 1)))) ` {1..<checktick_M}))"
proof -
  have "(\<lambda>i. c_int pf (micro_delta pf (tf ! i) (tf ! (i - 1)))) ` {1..<checktick_M}
      = (\<lambda>i. toward_zero (micro_delta pf (tf ! i) (tf ! (i - 1)))) ` {1..<checktick_M}"
    using assms by (intro image_cong refl) (simp add: c_int_def)
  then show ?thesis by (simp only: min_delta_Min)
qed

lemma quantum_of_ge: "1 \<le> quantum_of q"
  by (simp add: quantum_of_def)

lemma quantum_of_le: "q \<le> 1000000 \<Longrightarrow> quantum_of q \<le> 1000000"
  by (simp add: quantum_of_def)

text \<open>
  Claim C7, as amended. On a clock that advances, \<^verbatim>\<open>checktick\<close> returns. It collects 20
  readings, each the first reading of a spin that is at least one microsecond later than
  the reading the spin started from. It returns the least of 1000000 and of the 19 values
  \<^verbatim>\<open>(int)(1.0E6 * (timesfound[i]-timesfound[i-1]))\<close>; when the 19 products lie in the range
  of \<^verbatim>\<open>int\<close>, these values are the products truncated towards zero. Whatever the platform
  yields for a product outside that range, the result is an \<^verbatim>\<open>int\<close> not above 1000000. The
  caller replaces a result below 1 by 1, so the granularity \<^verbatim>\<open>main\<close> uses lies between 1
  and 1000000.
\<close>

theorem checktick_granularity:
  assumes "clock_advances clk"
  shows "(\<exists>tf p'. collect_times clk p = Some (tf, p')
           \<and> checktick pf clk p = Some (min_delta pf tf, p')
           \<and> length tf = 20 \<and> (\<forall>i<20. sampled clk (tf ! i))
           \<and> min_delta pf tf
               = Min (insert 1000000
                   ((\<lambda>i. c_int pf (micro_delta pf (tf ! i) (tf ! (i - 1)))) ` {1..<20}))
           \<and> ((\<forall>i\<in>{1..<20}. in_int_range (micro_delta pf (tf ! i) (tf ! (i - 1))))
                \<longrightarrow> min_delta pf tf
                      = Min (insert 1000000
                          ((\<lambda>i. toward_zero (micro_delta pf (tf ! i) (tf ! (i - 1)))) ` {1..<20})))
           \<and> INT_MIN \<le> min_delta pf tf \<and> min_delta pf tf \<le> 1000000
           \<and> quantum_of (min_delta pf tf) = (if 1 \<le> min_delta pf tf then min_delta pf tf else 1)
           \<and> 1 \<le> quantum_of (min_delta pf tf) \<and> quantum_of (min_delta pf tf) \<le> 1000000)
       \<and> (\<exists>r. stream_main pf cfg clk = Some r \<and> 1 \<le> quantum r \<and> quantum r \<le> 1000000)"
proof -
  have "checktick_M \<le> length (replicate checktick_M (0::real))" by simp
  from collect_fold [OF assms this, of p] obtain tf p'
    where c: "collect_times clk p = Some (tf, p')" "length tf = checktick_M"
      "\<forall>i<checktick_M. sampled clk (tf ! i)"
    unfolding collect_times_def by auto
  have ct: "checktick pf clk p = Some (min_delta pf tf, p')" by (simp add: checktick_def c(1))
  have len: "length tf = 20" using c(2) by (simp add: checktick_M_def)
  have smp: "\<forall>i<20. sampled clk (tf ! i)" using c(3) by (simp add: checktick_M_def)
  have mn: "min_delta pf tf
      = Min (insert 1000000 ((\<lambda>i. c_int pf (micro_delta pf (tf ! i) (tf ! (i - 1)))) ` {1..<20}))"
    using min_delta_Min [of pf tf] by (simp add: checktick_M_def)
  have rg: "(\<forall>i\<in>{1..<20}. in_int_range (micro_delta pf (tf ! i) (tf ! (i - 1))))
      \<longrightarrow> min_delta pf tf
            = Min (insert 1000000
                ((\<lambda>i. toward_zero (micro_delta pf (tf ! i) (tf ! (i - 1)))) ` {1..<20}))"
    using min_delta_in_range [of pf tf] by (simp add: checktick_M_def)
  note b = min_delta_range [of pf tf]
  have q: "quantum_of (min_delta pf tf) = (if 1 \<le> min_delta pf tf then min_delta pf tf else 1)"
    by (simp add: quantum_of_def)
  have first: "\<exists>tf p'. collect_times clk p = Some (tf, p')
           \<and> checktick pf clk p = Some (min_delta pf tf, p')
           \<and> length tf = 20 \<and> (\<forall>i<20. sampled clk (tf ! i))
           \<and> min_delta pf tf
               = Min (insert 1000000
                   ((\<lambda>i. c_int pf (micro_delta pf (tf ! i) (tf ! (i - 1)))) ` {1..<20}))
           \<and> ((\<forall>i\<in>{1..<20}. in_int_range (micro_delta pf (tf ! i) (tf ! (i - 1))))
                \<longrightarrow> min_delta pf tf
                      = Min (insert 1000000
                          ((\<lambda>i. toward_zero (micro_delta pf (tf ! i) (tf ! (i - 1)))) ` {1..<20})))
           \<and> INT_MIN \<le> min_delta pf tf \<and> min_delta pf tf \<le> 1000000
           \<and> quantum_of (min_delta pf tf) = (if 1 \<le> min_delta pf tf then min_delta pf tf else 1)
           \<and> 1 \<le> quantum_of (min_delta pf tf) \<and> quantum_of (min_delta pf tf) \<le> 1000000"
  proof (intro exI conjI)
    show "collect_times clk p = Some (tf, p')" by (rule c(1))
    show "checktick pf clk p = Some (min_delta pf tf, p')" by (rule ct)
    show "1 \<le> quantum_of (min_delta pf tf)" by (rule quantum_of_ge)
    show "quantum_of (min_delta pf tf) \<le> 1000000" using b by (intro quantum_of_le) simp
    show "INT_MIN \<le> min_delta pf tf" using b by simp
    show "min_delta pf tf \<le> 1000000" using b by simp
  qed (rule len smp mn rg q)+
  have "checktick_M \<le> length (replicate checktick_M (0::real))" by simp
  from collect_fold [OF assms this, of 0] obtain tf0 p0
    where c0: "collect_times clk 0 = Some (tf0, p0)"
    unfolding collect_times_def by auto
  have "stream_main pf cfg clk
      = Some (stream_report cfg (quantum_of (min_delta pf tf0))
          (stream_loop (STREAM_ARRAY_SIZE cfg) clk 3 (NTIMES cfg) (stream_start cfg p0)))"
    by (simp add: stream_main_def checktick_def c0)
  moreover have "quantum (stream_report cfg q s) = q" for q s
    by (simp add: stream_report_def Let_def split: prod.splits)
  ultimately have main: "\<exists>r. stream_main pf cfg clk = Some r \<and> 1 \<le> quantum r \<and> quantum r \<le> 1000000"
    using quantum_of_ge [of "min_delta pf tf0"] min_delta_range [of pf tf0]
      quantum_of_le [of "min_delta pf tf0"] by simp
  show ?thesis by (rule conjI [OF first main])
qed

lemma list_update_Cons_numeral: "(x # xs)[numeral v := y] = x # xs[numeral v - 1 := y]"
  by (simp add: numeral_eq_Suc)

lemma replicate_20:
  "replicate 20 x = [x, x, x, x, x, x, x, x, x, x, x, x, x, x, x, x, x, x, x, x]"
  by (simp add: numeral_eq_Suc)

lemma upt20: "[0..<20] = [0, 1, 2, 3, 4, 5, 6, 7, 8, 9, 10, 11, 12, 13, 14, 15, 16, 17, 18, 19]"
  by (simp add: upt_rec)

lemma upt1_20: "[1..<20] = [1, 2, 3, 4, 5, 6, 7, 8, 9, 10, 11, 12, 13, 14, 15, 16, 17, 18, 19]"
  by (simp add: upt_rec)

lemma example_platform_delta: "micro_delta example_platform x y = 10 ^ 6 * (x - y)"
  by (simp add: micro_delta_def example_platform_def)

lemma example_platform_large:
  "\<not> in_int_range x \<Longrightarrow> c_int example_platform x = - 2147483648"
  by (simp add: c_int_def example_platform_def as_int_def INT_MIN_def)

text \<open>A clock that shows whole seconds, two seconds apart from one call to the next.\<close>

lemma coarse_clock_collect:
  "collect_times (\<lambda>n. 2 * real n) 0
     = Some ([2, 6, 10, 14, 18, 22, 26, 30, 34, 38, 42, 46, 50, 54, 58, 62, 66, 70, 74, 78], 40)"
  unfolding collect_times_def checktick_M_def upt20 replicate_20
  by (simp add: collect_step_def spin.simps list_update_Cons_numeral)

lemma coarse_clock_deltas:
  "map (\<lambda>i. micro_delta example_platform
         ([2, 6, 10, 14, 18, 22, 26, 30, 34, 38, 42, 46, 50, 54, 58, 62, 66, 70, 74, 78] ! i)
         ([2, 6, 10, 14, 18, 22, 26, 30, 34, 38, 42, 46, 50, 54, 58, 62, 66, 70, 74, 78] ! (i - 1)))
       [1..<20]
     = replicate 19 4000000"
  unfolding upt1_20 example_platform_delta by (simp add: numeral_eq_Suc)

lemma coarse_clock_checktick: "checktick example_platform (\<lambda>n. 2 * real n) 0 = Some (1000000, 40)"
  unfolding checktick_def coarse_clock_collect option.case prod.case
  unfolding min_delta_def checktick_M_def upt1_20 example_platform_delta
  by (simp add: c_int_def toward_zero_def in_int_range_def INT_MIN_def INT_MAX_def Let_def)

text \<open>A clock that shows whole seconds, 3000 seconds apart from one call to the next.\<close>

lemma jumping_clock_collect:
  "collect_times (\<lambda>n. 3000 * real n) 0
     = Some ([3000, 9000, 15000, 21000, 27000, 33000, 39000, 45000, 51000, 57000, 63000, 69000,
              75000, 81000, 87000, 93000, 99000, 105000, 111000, 117000], 40)"
  unfolding collect_times_def checktick_M_def upt20 replicate_20
  by (simp add: collect_step_def spin.simps list_update_Cons_numeral)

lemma jumping_clock_checktick:
  "checktick example_platform (\<lambda>n. 3000 * real n) 0 = Some (- 2147483648, 40)"
  unfolding checktick_def jumping_clock_collect option.case prod.case
  unfolding min_delta_def checktick_M_def upt1_20 example_platform_delta
  by (simp add: c_int_def as_int_def example_platform_def in_int_range_def INT_MIN_def
      INT_MAX_def Let_def)

text \<open>
  A clock with ticks of 1/64 second (15625 microseconds) that is read three times in
  every tick.
\<close>

lemma ticking_clock_collect:
  "collect_times (\<lambda>n. real (n div 3) / 64) 0
     = Some ([1 / 64, 2 / 64, 3 / 64, 4 / 64, 5 / 64, 6 / 64, 7 / 64, 8 / 64, 9 / 64, 10 / 64,
              11 / 64, 12 / 64, 13 / 64, 14 / 64, 15 / 64, 16 / 64, 17 / 64, 18 / 64, 19 / 64,
              20 / 64], 61)"
  unfolding collect_times_def checktick_M_def upt20 replicate_20
  by (simp add: collect_step_def spin.simps list_update_Cons_numeral)

lemma ticking_clock_deltas:
  "map (\<lambda>i. micro_delta example_platform
         ([1 / 64, 2 / 64, 3 / 64, 4 / 64, 5 / 64, 6 / 64, 7 / 64, 8 / 64, 9 / 64, 10 / 64,
           11 / 64, 12 / 64, 13 / 64, 14 / 64, 15 / 64, 16 / 64, 17 / 64, 18 / 64, 19 / 64,
           20 / 64] ! i)
         ([1 / 64, 2 / 64, 3 / 64, 4 / 64, 5 / 64, 6 / 64, 7 / 64, 8 / 64, 9 / 64, 10 / 64,
           11 / 64, 12 / 64, 13 / 64, 14 / 64, 15 / 64, 16 / 64, 17 / 64, 18 / 64, 19 / 64,
           20 / 64] ! (i - 1)))
       [1..<20]
     = replicate 19 15625"
  unfolding upt1_20 example_platform_delta by (simp add: numeral_eq_Suc)

lemma ticking_clock_checktick:
  "checktick example_platform (\<lambda>n. real (n div 3) / 64) 0 = Some (15625, 61)"
  unfolding checktick_def ticking_clock_collect option.case prod.case
  unfolding min_delta_def checktick_M_def upt1_20 example_platform_delta
  by (simp add: c_int_def toward_zero_def in_int_range_def INT_MIN_def INT_MAX_def Let_def)

lemma ticking_clock_advances: "clock_advances (\<lambda>n. real (n div 3) / 64)"
  unfolding clock_advances_def
proof
  fix p :: nat
  have e: "(p + 3) div 3 = p div 3 + 1" by simp
  have eq: "real ((p + 3) div 3) / 64 - real (p div 3) / 64 = 1 / 64"
    unfolding e by (simp add: add_divide_distrib)
  have le: "(1::real) / 10 ^ 6 \<le> 1 / 64" by simp
  have "1 / 10 ^ 6 \<le> real ((p + 3) div 3) / 64 - real (p div 3) / 64"
    unfolding eq by (rule le)
  then have "p < p + 3 \<and> 1 / 10 ^ 6 \<le> real ((p + 3) div 3) / 64 - real (p div 3) / 64"
    by (intro conjI) simp
  then show "\<exists>q>p. 1 / 10 ^ 6 \<le> real (q div 3) / 64 - real (p div 3) / 64" by blast
qed

theorem checktick_granularity_witness:
  "clock_advances (\<lambda>n. real (n div 3) / 64)
   \<and> collect_times (\<lambda>n. real (n div 3) / 64) 0
     = Some ([1 / 64, 2 / 64, 3 / 64, 4 / 64, 5 / 64, 6 / 64, 7 / 64, 8 / 64, 9 / 64, 10 / 64,
              11 / 64, 12 / 64, 13 / 64, 14 / 64, 15 / 64, 16 / 64, 17 / 64, 18 / 64, 19 / 64,
              20 / 64], 61)
   \<and> list_all in_int_range
       (map (\<lambda>i. micro_delta example_platform
         ([1 / 64, 2 / 64, 3 / 64, 4 / 64, 5 / 64, 6 / 64, 7 / 64, 8 / 64, 9 / 64, 10 / 64,
           11 / 64, 12 / 64, 13 / 64, 14 / 64, 15 / 64, 16 / 64, 17 / 64, 18 / 64, 19 / 64,
           20 / 64] ! i)
         ([1 / 64, 2 / 64, 3 / 64, 4 / 64, 5 / 64, 6 / 64, 7 / 64, 8 / 64, 9 / 64, 10 / 64,
           11 / 64, 12 / 64, 13 / 64, 14 / 64, 15 / 64, 16 / 64, 17 / 64, 18 / 64, 19 / 64,
           20 / 64] ! (i - 1)))
       [1..<20])
   \<and> checktick example_platform (\<lambda>n. real (n div 3) / 64) 0 = Some (15625, 61)
   \<and> quantum_of 15625 = 15625"
proof -
  from checktick_granularity [OF ticking_clock_advances, of 0 example_platform, THEN conjunct1]
  obtain tf p' where "checktick example_platform (\<lambda>n. real (n div 3) / 64) 0
        = Some (min_delta example_platform tf, p')"
    "quantum_of (min_delta example_platform tf)
        = (if 1 \<le> min_delta example_platform tf then min_delta example_platform tf else 1)"
    by blast
  then have "quantum_of 15625 = 15625" using ticking_clock_checktick by simp
  moreover have "list_all in_int_range (replicate 19 15625)"
    by (simp add: list_all_iff in_int_range_def INT_MIN_def INT_MAX_def)
  ultimately show ?thesis
    unfolding ticking_clock_deltas
    using ticking_clock_advances ticking_clock_collect ticking_clock_checktick by simp
qed

text \<open>
  The claim as stated fails on a clock whose consecutive readings are two seconds apart:
  every difference of consecutive samples is 4000000 microseconds, and \<^verbatim>\<open>checktick\<close>
  returns 1000000, the initial value of \<^verbatim>\<open>minDelta\<close>, which is no difference it observed.
  It fails as well on a clock whose consecutive readings are 3000 seconds apart: every
  difference is 6000000000 microseconds, which no \<^verbatim>\<open>int\<close> holds, and \<^verbatim>\<open>checktick\<close> returns
  what the conversion yields there, \<open>-2147483648\<close> on the platform of the examples.
\<close>

theorem checktick_granularity_counterexample:
  "collect_times (\<lambda>n. 2 * real n) 0
     = Some ([2, 6, 10, 14, 18, 22, 26, 30, 34, 38, 42, 46, 50, 54, 58, 62, 66, 70, 74, 78], 40)
   \<and> map (\<lambda>i. micro_delta example_platform
         ([2, 6, 10, 14, 18, 22, 26, 30, 34, 38, 42, 46, 50, 54, 58, 62, 66, 70, 74, 78] ! i)
         ([2, 6, 10, 14, 18, 22, 26, 30, 34, 38, 42, 46, 50, 54, 58, 62, 66, 70, 74, 78] ! (i - 1)))
       [1..<20]
     = replicate 19 4000000
   \<and> checktick example_platform (\<lambda>n. 2 * real n) 0 = Some (1000000, 40)
   \<and> collect_times (\<lambda>n. 3000 * real n) 0
     = Some ([3000, 9000, 15000, 21000, 27000, 33000, 39000, 45000, 51000, 57000, 63000, 69000,
              75000, 81000, 87000, 93000, 99000, 105000, 111000, 117000], 40)
   \<and> checktick example_platform (\<lambda>n. 3000 * real n) 0 = Some (- 2147483648, 40)"
  using coarse_clock_collect coarse_clock_deltas coarse_clock_checktick jumping_clock_collect
    jumping_clock_checktick
  by (intro conjI)

subsection \<open>The runs of stream.c and the exit codes\<close>

lemma stream_main_eq:
  "checktick pf clk 0 = Some (q, p) \<Longrightarrow>
   stream_main pf cfg clk
     = Some (stream_report cfg (quantum_of q)
         (stream_loop (STREAM_ARRAY_SIZE cfg) clk 3 (NTIMES cfg) (stream_start cfg p)))"
  by (simp add: stream_main_def)

lemma stream_main_returns:
  assumes "clock_advances clk"
  shows "\<exists>q p. checktick pf clk 0 = Some (q, p)"
proof -
  have "checktick_M \<le> length (replicate checktick_M (0::real))" by simp
  from collect_fold [OF assms this, of 0] obtain tf p
    where "collect_times clk 0 = Some (tf, p)"
    unfolding collect_times_def by auto
  then show ?thesis by (simp add: checktick_def)
qed

lemma check_array_quiet:
  "filter is_Ran (snd (check_array name N xs xj epsilon)) = []"
  "filter is_Stderr (snd (check_array name N xs xj epsilon)) = []"
  by (simp_all add: check_array_def Let_def)

lemma checkSTREAMresults_quiet:
  "filter is_Ran (snd (checkSTREAMresults cfg a b c)) = []"
  "filter is_Stderr (snd (checkSTREAMresults cfg a b c)) = []"
  by (simp_all add: checkSTREAMresults_def Let_def check_array_quiet case_prod_beta)

lemma stream_report_fields:
  "exit_code (stream_report cfg q s) = 0"
  "quantum (stream_report cfg q s) = q"
  "printed (stream_report cfg q s) = events s @ snd (checkSTREAMresults cfg (arr_a s) (arr_b s) (arr_c s))"
  "validation_errors (stream_report cfg q s) = fst (checkSTREAMresults cfg (arr_a s) (arr_b s) (arr_c s))"
  "avg_times (stream_report cfg q s) = averages (NTIMES cfg) (summarize (NTIMES cfg) (times s))"
  "min_times (stream_report cfg q s) = mintime (summarize (NTIMES cfg) (times s))"
  "max_times (stream_report cfg q s) = maxtime (summarize (NTIMES cfg) (times s))"
  "final_a (stream_report cfg q s) = arr_a s"
  by (simp_all add: stream_report_def Let_def case_prod_beta)

lemma stream_start_events:
  "filter is_Ran (events (stream_start cfg p)) = [Ran ''Double'' 0]"
  "filter is_Stderr (events (stream_start cfg p)) = []"
  by (simp_all add: stream_start_def Let_def case_prod_beta)

lemma stream_loop_no_stderr:
  "filter is_Stderr (events (stream_loop N clk scalar ntimes s)) = filter is_Stderr (events s)"
  by (induction ntimes)
    (simp_all add: stream_loop_Suc stream_trial_events, simp add: stream_loop_def)

lemma averages_short:
  "averages (Suc 0) (summarize (Suc 0) ts) = [None, None, None, None]"
  "mintime (summarize (Suc 0) ts) = [FLT_MAX, FLT_MAX, FLT_MAX, FLT_MAX]"
  "maxtime (summarize (Suc 0) ts) = [0, 0, 0, 0]"
  "averages 0 (summarize 0 ts) = [Some 0, Some 0, Some 0, Some 0]"
  "mintime (summarize 0 ts) = [FLT_MAX, FLT_MAX, FLT_MAX, FLT_MAX]"
  "maxtime (summarize 0 ts) = [0, 0, 0, 0]"
  by (simp_all add: averages_def summarize_def c_div_def upt_rec)

text \<open>
  Claim C8, as amended. stream.c has no check of the iteration count: whatever \<^verbatim>\<open>NTIMES\<close>
  is, also 0 or 1, a run on a clock that advances returns with exit code 0, writes
  nothing to standard error and executes the doubling loop and the four kernels of each
  of the \<^verbatim>\<open>NTIMES\<close> trials. With \<^verbatim>\<open>NTIMES\<close> \<open>= 1\<close> no sample enters the summary, the average
  is the quotient of 0 by \<^verbatim>\<open>NTIMES\<close> \<open>- 1 = 0\<close>, which is no number, the minimum stays at
  \<^verbatim>\<open>FLT_MAX\<close> and the maximum at 0. With \<^verbatim>\<open>NTIMES\<close> \<open>= 0\<close> the average is the quotient of 0
  by \<open>-1\<close>.
\<close>

theorem no_iteration_count_check:
  assumes "clock_advances clk"
  shows "\<exists>r. stream_main pf cfg clk = Some r \<and> exit_code r = 0
           \<and> filter is_Stderr (printed r) = []
           \<and> filter is_Ran (printed r) = Ran ''Double'' 0 # concat (map trial_kernels [0..<NTIMES cfg])
           \<and> (NTIMES cfg = 1 \<longrightarrow>
                 avg_times r = [None, None, None, None]
               \<and> min_times r = [FLT_MAX, FLT_MAX, FLT_MAX, FLT_MAX]
               \<and> max_times r = [0, 0, 0, 0])
           \<and> (NTIMES cfg = 0 \<longrightarrow>
                 avg_times r = [Some 0, Some 0, Some 0, Some 0]
               \<and> min_times r = [FLT_MAX, FLT_MAX, FLT_MAX, FLT_MAX]
               \<and> max_times r = [0, 0, 0, 0])"
proof -
  from stream_main_returns [OF assms] obtain q p where c: "checktick pf clk 0 = Some (q, p)"
    by blast
  let ?s = "stream_loop (STREAM_ARRAY_SIZE cfg) clk 3 (NTIMES cfg) (stream_start cfg p)"
  let ?r = "stream_report cfg (quantum_of q) ?s"
  have m: "stream_main pf cfg clk = Some ?r" using c by (rule stream_main_eq)
  have e: "filter is_Stderr (printed ?r) = []"
    by (simp add: stream_report_fields checkSTREAMresults_quiet stream_loop_no_stderr
        stream_start_events)
  have k: "filter is_Ran (printed ?r) = Ran ''Double'' 0 # concat (map trial_kernels [0..<NTIMES cfg])"
    by (simp add: stream_report_fields checkSTREAMresults_quiet stream_loop_kernels
        stream_start_events)
  have x: "exit_code ?r = 0" by (simp add: stream_report_fields)
  have one: "NTIMES cfg = 1 \<longrightarrow>
                 avg_times ?r = [None, None, None, None]
               \<and> min_times ?r = [FLT_MAX, FLT_MAX, FLT_MAX, FLT_MAX]
               \<and> max_times ?r = [0, 0, 0, 0]"
    by (simp add: stream_report_fields averages_short)
  have none: "NTIMES cfg = 0 \<longrightarrow>
                 avg_times ?r = [Some 0, Some 0, Some 0, Some 0]
               \<and> min_times ?r = [FLT_MAX, FLT_MAX, FLT_MAX, FLT_MAX]
               \<and> max_times ?r = [0, 0, 0, 0]"
    by (simp add: stream_report_fields averages_short)
  show ?thesis
  proof (intro exI conjI)
    show "stream_main pf cfg clk = Some ?r" by (rule m)
  qed (rule x e k one none)+
qed

lemma coarse_clock_advances: "clock_advances (\<lambda>n. 2 * real n)"
  unfolding clock_advances_def
proof
  fix p :: nat
  have "p < p + 1 \<and> 1 / 10 ^ 6 \<le> 2 * real (p + 1) - 2 * real p" by simp
  then show "\<exists>q>p. 1 / 10 ^ 6 \<le> 2 * real q - 2 * real p" by blast
qed

lemma stream_start_length:
  "length (arr_a (stream_start cfg p)) = STREAM_ARRAY_SIZE cfg + OFFSET cfg"
  by (simp add: stream_start_def stream_init_def Let_def fold_init_triple case_prod_beta
      stream_double_def fold_store_self_length fold_store_upt_length)

lemma one_trial_example:
  "arr_a (stream_loop 2 (\<lambda>n. 2 * real n) 3 (Suc 0)
     (stream_start \<lparr>STREAM_ARRAY_SIZE = 2, NTIMES = Suc 0, OFFSET = 0, sizeof_STREAM_TYPE = 8\<rparr> 40))
   = [30, 30]"
proof -
  let ?cfg = "\<lparr>STREAM_ARRAY_SIZE = 2, NTIMES = Suc 0, OFFSET = 0, sizeof_STREAM_TYPE = 8\<rparr>"
  let ?a = "arr_a (stream_loop 2 (\<lambda>n. 2 * real n) 3 (Suc 0) (stream_start ?cfg 40))"
  have "uniform_state (STREAM_ARRAY_SIZE ?cfg)
      (stream_loop (STREAM_ARRAY_SIZE ?cfg) (\<lambda>n. 2 * real n) 3 (Suc 0) (stream_start ?cfg 40))
      (fold (\<lambda>k. expected_step 3) [0..<Suc 0] (2, 2, 0))"
    by (rule stream_loop_uniform [OF stream_start_uniform])
  then have t: "take 2 ?a = replicate 2 30"
    by (simp add: uniform_state_def expected_step_def)
  have "length ?a = 2"
    using stream_loop_lengths [of 2 "\<lambda>n. 2 * real n" 3 "Suc 0" "stream_start ?cfg 40"]
      stream_start_length [of ?cfg 40]
    by simp
  then have "?a = take 2 ?a" by simp
  also have "\<dots> = [30, 30]" unfolding t by (simp add: numeral_2_eq_2)
  finally show ?thesis .
qed

theorem no_iteration_count_check_witness:
  "clock_advances (\<lambda>n. 2 * real n)
   \<and> map_option exit_code
        (stream_main example_platform \<lparr>STREAM_ARRAY_SIZE = 2, NTIMES = 0, OFFSET = 0, sizeof_STREAM_TYPE = 8\<rparr>
           (\<lambda>n. 2 * real n)) = Some 0
   \<and> map_option avg_times
        (stream_main example_platform \<lparr>STREAM_ARRAY_SIZE = 2, NTIMES = 0, OFFSET = 0, sizeof_STREAM_TYPE = 8\<rparr>
           (\<lambda>n. 2 * real n)) = Some [Some 0, Some 0, Some 0, Some 0]
   \<and> map_option (\<lambda>r. filter is_Ran (printed r))
        (stream_main example_platform \<lparr>STREAM_ARRAY_SIZE = 2, NTIMES = 0, OFFSET = 0, sizeof_STREAM_TYPE = 8\<rparr>
           (\<lambda>n. 2 * real n)) = Some [Ran ''Double'' 0]"
proof -
  from no_iteration_count_check [OF coarse_clock_advances, where pf = example_platform
      and cfg = "\<lparr>STREAM_ARRAY_SIZE = 2, NTIMES = 0, OFFSET = 0, sizeof_STREAM_TYPE = 8\<rparr>"]
  obtain r where
    "stream_main example_platform \<lparr>STREAM_ARRAY_SIZE = 2, NTIMES = 0, OFFSET = 0, sizeof_STREAM_TYPE = 8\<rparr>
       (\<lambda>n. 2 * real n) = Some r"
    "exit_code r = 0" "avg_times r = [Some 0, Some 0, Some 0, Some 0]"
    "filter is_Ran (printed r) = [Ran ''Double'' 0]"
    by auto
  then show ?thesis using coarse_clock_advances by simp
qed


text \<open>
  The claim as stated fails for \<^verbatim>\<open>NTIMES\<close> \<open>= 1\<close>: the run reports no error, executes the
  four kernels, leaves \<open>a = 30\<close> and divides by zero in the averages.
\<close>

theorem no_iteration_count_check_counterexample:
  "map_option exit_code
        (stream_main example_platform \<lparr>STREAM_ARRAY_SIZE = 2, NTIMES = 1, OFFSET = 0, sizeof_STREAM_TYPE = 8\<rparr>
           (\<lambda>n. 2 * real n)) = Some 0
   \<and> map_option (\<lambda>r. filter is_Stderr (printed r))
        (stream_main example_platform \<lparr>STREAM_ARRAY_SIZE = 2, NTIMES = 1, OFFSET = 0, sizeof_STREAM_TYPE = 8\<rparr>
           (\<lambda>n. 2 * real n)) = Some []
   \<and> map_option (\<lambda>r. filter is_Ran (printed r))
        (stream_main example_platform \<lparr>STREAM_ARRAY_SIZE = 2, NTIMES = 1, OFFSET = 0, sizeof_STREAM_TYPE = 8\<rparr>
           (\<lambda>n. 2 * real n))
       = Some [Ran ''Double'' 0, Ran ''Copy'' 0, Ran ''Scale'' 0, Ran ''Add'' 0, Ran ''Triad'' 0]
   \<and> map_option final_a
        (stream_main example_platform \<lparr>STREAM_ARRAY_SIZE = 2, NTIMES = 1, OFFSET = 0, sizeof_STREAM_TYPE = 8\<rparr>
           (\<lambda>n. 2 * real n)) = Some [30, 30]
   \<and> map_option avg_times
        (stream_main example_platform \<lparr>STREAM_ARRAY_SIZE = 2, NTIMES = 1, OFFSET = 0, sizeof_STREAM_TYPE = 8\<rparr>
           (\<lambda>n. 2 * real n)) = Some [None, None, None, None]"
  unfolding stream_main_eq [OF coarse_clock_checktick] option.map stream_report_fields
  by (simp add: one_trial_example checkSTREAMresults_quiet stream_loop_no_stderr
      stream_loop_kernels stream_start_events averages_short trial_kernels_def)

lemma vector_add_main_ok:
  assumes "va_malloc_ok env 0 \<and> va_malloc_ok env 1 \<and> va_malloc_ok env 2 \<and> va_malloc_ok env 3"
  shows "\<exists>c_serial c_parallel t_serial t_parallel ev'.
           vector_add_main env n = vector_add_report c_serial c_parallel n t_serial t_parallel ev'"
proof -
  have ok: "\<not> \<not> (va_malloc_ok env 0 \<and> va_malloc_ok env 1 \<and> va_malloc_ok env 2 \<and> va_malloc_ok env 3)"
    using assms by blast
  show ?thesis
    unfolding vector_add_main_def Let_def case_prod_beta if_not_P [OF ok]
    by (intro exI) (rule refl)
qed

lemma matmul_main_ok:
  assumes "malloc_ok menv 0 \<and> malloc_ok menv 1 \<and> malloc_ok menv 2 \<and> malloc_ok menv 3
      \<and> malloc_ok menv 4"
  shows "\<exists>C_serial C_parallel C_collapse t_serial t_parallel t_collapse ev'.
           matmul_main menv m
             = matmul_report C_serial C_parallel C_collapse m t_serial t_parallel t_collapse ev'"
proof -
  have ok: "\<not> \<not> (malloc_ok menv 0 \<and> malloc_ok menv 1 \<and> malloc_ok menv 2 \<and> malloc_ok menv 3
      \<and> malloc_ok menv 4)"
    using assms by blast
  show ?thesis
    unfolding matmul_main_def Let_def if_not_P [OF ok]
    by (intro exI) (rule refl)
qed

lemma vector_add_report_exit:
  "fst (vector_add_report cs cp n ms mp ev)
     = (if fst (vector_add_verify_results cs cp n (1 / 10 ^ 9)) \<noteq> 0 then 0 else 1)"
  by (simp add: vector_add_report_def case_prod_beta)

lemma matmul_report_exit: "fst (matmul_report Cs Cp Cc m t1 t2 t3 mev) = 0"
  by (simp add: matmul_report_def case_prod_beta)

text \<open>
  Claim C5, as amended. vector\_add.c exits with 1, the message on standard error being
  its only event and no timestamp taken, when an allocation fails; otherwise its exit
  code is that of its report, which is 0 iff \<^verbatim>\<open>verify_results\<close> returns a value other than
  0. matmul.c exits with 1 in the same way when an allocation fails; otherwise its exit
  code is that of its report, which is 0 when both verifications count no error.
  stream.c allocates nothing at run time and always exits with 0, whatever
  \<^verbatim>\<open>checkSTREAMresults\<close> finds.
\<close>

theorem exit_codes:
  "(if va_malloc_ok env 0 \<and> va_malloc_ok env 1 \<and> va_malloc_ok env 2 \<and> va_malloc_ok env 3
    then \<exists>c_serial c_parallel t_serial t_parallel ev'.
           vector_add_main env n = vector_add_report c_serial c_parallel n t_serial t_parallel ev'
    else vector_add_main env n = (1, [Stderr ''Memory allocation failed'']))
   \<and> fst (vector_add_report cs cp n ms mp ev)
       = (if fst (vector_add_verify_results cs cp n (1 / 10 ^ 9)) \<noteq> 0 then 0 else 1)
   \<and> (if malloc_ok menv 0 \<and> malloc_ok menv 1 \<and> malloc_ok menv 2 \<and> malloc_ok menv 3
          \<and> malloc_ok menv 4
       then \<exists>C_serial C_parallel C_collapse t_serial t_parallel t_collapse ev'.
              matmul_main menv m
                = matmul_report C_serial C_parallel C_collapse m t_serial t_parallel t_collapse ev'
       else matmul_main menv m = (1, [Stderr ''Memory allocation failed'']))
   \<and> (fst (matmul_verify_results Cs Cp m (1 / 10 ^ 6)) = 0
        \<and> fst (matmul_verify_results Cs Cc m (1 / 10 ^ 6)) = 0
        \<longrightarrow> fst (matmul_report Cs Cp Cc m t1 t2 t3 mev) = 0)
   \<and> exit_code (stream_report cfg q s) = 0
   \<and> (\<forall>r. stream_main pf cfg clk = Some r \<longrightarrow> exit_code r = 0)"
proof -
  have va: "if va_malloc_ok env 0 \<and> va_malloc_ok env 1 \<and> va_malloc_ok env 2 \<and> va_malloc_ok env 3
    then \<exists>c_serial c_parallel t_serial t_parallel ev'.
           vector_add_main env n = vector_add_report c_serial c_parallel n t_serial t_parallel ev'
    else vector_add_main env n = (1, [Stderr ''Memory allocation failed''])"
  proof (cases "va_malloc_ok env 0 \<and> va_malloc_ok env 1 \<and> va_malloc_ok env 2 \<and> va_malloc_ok env 3")
    case True
    then show ?thesis using vector_add_main_ok [OF True, of n] by simp
  next
    case False
    have "vector_add_main env n = (1, [Stderr ''Memory allocation failed''])"
      unfolding vector_add_main_def by (rule if_P [OF False])
    then show ?thesis by (simp only: False if_False)
  qed
  have mm: "if malloc_ok menv 0 \<and> malloc_ok menv 1 \<and> malloc_ok menv 2 \<and> malloc_ok menv 3
          \<and> malloc_ok menv 4
       then \<exists>C_serial C_parallel C_collapse t_serial t_parallel t_collapse ev'.
              matmul_main menv m
                = matmul_report C_serial C_parallel C_collapse m t_serial t_parallel t_collapse ev'
       else matmul_main menv m = (1, [Stderr ''Memory allocation failed''])"
  proof (cases "malloc_ok menv 0 \<and> malloc_ok menv 1 \<and> malloc_ok menv 2 \<and> malloc_ok menv 3
          \<and> malloc_ok menv 4")
    case True
    then show ?thesis using matmul_main_ok [OF True, of m] by simp
  next
    case False
    have "matmul_main menv m = (1, [Stderr ''Memory allocation failed''])"
      unfolding matmul_main_def by (rule if_P [OF False])
    then show ?thesis by (simp only: False if_False)
  qed
  have st: "\<forall>r. stream_main pf cfg clk = Some r \<longrightarrow> exit_code r = 0"
    by (auto simp: stream_main_def stream_report_fields split: option.splits)
  show ?thesis
    using va mm st vector_add_report_exit [of cs cp n ms mp ev]
      matmul_report_exit [of Cs Cp Cc m t1 t2 t3 mev] stream_report_fields(1) [of cfg q s]
    by simp
qed

theorem exit_codes_witness:
  "vector_add_main \<lparr>va_malloc_ok = \<lambda>k. k \<noteq> 2, va_garbage = \<lambda>k i. 0, va_get_time = \<lambda>n. real n,
       va_sched = \<lambda>k. [0, 1]\<rparr> 2 = (1, [Stderr ''Memory allocation failed''])
   \<and> fst (vector_add_report [1, 2] [1, 5] 2 0 0 []) = 1
   \<and> fst (vector_add_report [1, 2] [1, 2] 2 0 0 []) = 0
   \<and> matmul_main \<lparr>malloc_ok = \<lambda>k. k \<noteq> 4, garbage = \<lambda>k i. 0, get_time = \<lambda>n. real n,
       rows = \<lambda>k. [0, 1], cells = \<lambda>k. [(0, 0), (0, 1), (1, 0), (1, 1)]\<rparr> 2
       = (1, [Stderr ''Memory allocation failed''])
   \<and> fst (matmul_report [1, 2, 3, 4] [1, 2, 3, 4] [1, 2, 3, 4] 2 0 0 0 []) = 0
   \<and> map_option exit_code
        (stream_main example_platform \<lparr>STREAM_ARRAY_SIZE = 2, NTIMES = 2, OFFSET = 0, sizeof_STREAM_TYPE = 8\<rparr>
           (\<lambda>n. 2 * real n)) = Some 0"
proof -
  let ?env = "\<lparr>va_malloc_ok = \<lambda>k. k \<noteq> 2, va_garbage = \<lambda>k i. 0, va_get_time = \<lambda>n. real n,
       va_sched = \<lambda>k. [0, 1]\<rparr>"
  let ?menv = "\<lparr>malloc_ok = \<lambda>k. k \<noteq> 4, garbage = \<lambda>k i. 0, get_time = \<lambda>n. real n,
       rows = \<lambda>k. [0, 1], cells = \<lambda>k. [(0, 0), (0, 1), (1, 0), (1, 1)]\<rparr>"
  let ?cfg = "\<lparr>STREAM_ARRAY_SIZE = 2, NTIMES = 2, OFFSET = 0, sizeof_STREAM_TYPE = 8\<rparr>"
  note t = exit_codes [where env = ?env and n = 2 and ms = 0 and mp = 0 and ev = "[]"
      and menv = ?menv and m = 2 and Cs = "[1, 2, 3, 4]" and Cp = "[1, 2, 3, 4]"
      and Cc = "[1, 2, 3, 4]" and ?t1.0 = 0 and ?t2.0 = 0 and ?t3.0 = 0 and mev = "[]"
      and cfg = ?cfg and clk = "\<lambda>n. 2 * real n" and pf = example_platform]
  have v0: "fst (matmul_verify_results [1, 2, 3, 4] [1, 2, 3, 4] 2 (1 / 10 ^ 6)) = 0"
    by (simp add: matmul_verify_results_def matmul_verify_step_def upt_rec)
  have 1: "vector_add_main ?env 2 = (1, [Stderr ''Memory allocation failed''])"
    using t [THEN conjunct1] by simp
  have 2: "fst (vector_add_report [1, 2] [1, 5] 2 0 0 []) = 1"
    using t [where cs = "[1, 2]" and cp = "[1, 5]", THEN conjunct2, THEN conjunct1]
    by (simp add: vector_add_verify_results_def upt_rec)
  have 3: "fst (vector_add_report [1, 2] [1, 2] 2 0 0 []) = 0"
    using t [where cs = "[1, 2]" and cp = "[1, 2]", THEN conjunct2, THEN conjunct1]
    by (simp add: vector_add_verify_results_def upt_rec)
  have 4: "matmul_main ?menv 2 = (1, [Stderr ''Memory allocation failed''])"
    using t [THEN conjunct2, THEN conjunct2, THEN conjunct1] by simp
  have 5: "fst (matmul_report [1, 2, 3, 4] [1, 2, 3, 4] [1, 2, 3, 4] 2 0 0 0 []) = 0"
    using t [THEN conjunct2, THEN conjunct2, THEN conjunct2, THEN conjunct1] v0 by simp
  have 6: "map_option exit_code (stream_main example_platform ?cfg (\<lambda>n. 2 * real n)) = Some 0"
    using t [THEN conjunct2, THEN conjunct2, THEN conjunct2, THEN conjunct2, THEN conjunct2]
      stream_main_eq [OF coarse_clock_checktick, of ?cfg]
    by simp
  show ?thesis using 1 2 3 4 5 6 by simp
qed

text \<open>
  The claim as stated fails for stream.c: when the arrays at the end of the main loop do
  not hold the expected values, \<^verbatim>\<open>checkSTREAMresults\<close> reports the failed validation and
  \<^verbatim>\<open>main\<close> still returns 0.
\<close>

theorem exit_codes_counterexample:
  "validation_errors (stream_report
       \<lparr>STREAM_ARRAY_SIZE = 2, NTIMES = 1, OFFSET = 0, sizeof_STREAM_TYPE = 8\<rparr> 1
       \<lparr>arr_a = [30, 31], arr_b = [6, 6], arr_c = [8, 8], clock_calls = 0,
        times = [[0], [0], [0], [0]], events = []\<rparr>) = 1
   \<and> printed (stream_report
       \<lparr>STREAM_ARRAY_SIZE = 2, NTIMES = 1, OFFSET = 0, sizeof_STREAM_TYPE = 8\<rparr> 1
       \<lparr>arr_a = [30, 31], arr_b = [6, 6], arr_c = [8, 8], clock_calls = 0,
        times = [[0], [0], [0], [0]], events = []\<rparr>)
       = [Stdout ''Failed Validation on array a[]'', Errors_found ''a[]'' 1]
   \<and> exit_code (stream_report
       \<lparr>STREAM_ARRAY_SIZE = 2, NTIMES = 1, OFFSET = 0, sizeof_STREAM_TYPE = 8\<rparr> 1
       \<lparr>arr_a = [30, 31], arr_b = [6, 6], arr_c = [8, 8], clock_calls = 0,
        times = [[0], [0], [0], [0]], events = []\<rparr>) = 0"
  unfolding stream_report_fields
  by (simp add: checkSTREAMresults_def expected_values_def expected_step_def check_array_def
      sum_errors_def exceeds_def count_errors_def stream_abs_def epsilon_of_def upt_rec)

subsection \<open>The timings reported by stream.c\<close>

























end
